theory Spec2Isabelle
  imports Complex_Main "HOL-Library.Multiset"
begin

section \<open>Data model of \<^verbatim>\<open>RackingVisualizer.tsx\<close>\<close>

text \<open>
  The component \<^verbatim>\<open>RackingMaintenanceVisualizer\<close> keeps its data in React state and
  rebuilds the three.js scene from it in one effect. The embedding keeps the state as a
  record, passes it explicitly, and returns the new state from every handler.
  JavaScript numbers that count things (\<^verbatim>\<open>bays\<close>, \<^verbatim>\<open>levels\<close>, loop indices)
  are integers, lengths and colours' channel values are reals. World-space geometry
  (positions and box sizes of the meshes) is not represented: what a mesh carries here is
  its \<^verbatim>\<open>userData\<close>, its material and the key under which the build registers it.
\<close>

record config =
  bays :: int
  levels :: int
  bayWidth :: real
  bayDepth :: real
  levelHeight :: real
  beamColor :: string
  frameColor :: string
  palletColor :: string
  crossbarColor :: string
  wireDeckColor :: string
  showWireDecks :: bool
  showPallets :: bool
  palletFill :: real

record rack =
  rack_id :: string
  rack_name :: string
  rack_position :: "real \<times> real"
  rack_rotation :: real
  rack_config :: config

text \<open>
  \<^verbatim>\<open>timestamp\<close> is an ISO-8601 string in the source, written by
  \<^verbatim>\<open>new Date().toISOString()\<close> and only ever read back through
  \<^verbatim>\<open>new Date(r.timestamp).getTime()\<close>; the field holds that number of epoch
  milliseconds. \<^verbatim>\<open>images\<close> is optional in the interface.
\<close>

record maintenance_record =
  rec_id :: int
  rec_type :: string
  description :: string
  technician :: string
  status :: string
  timestamp :: int
  componentId :: string
  images :: "string list option"

record new_record =
  nr_type :: string
  nr_description :: string
  nr_technician :: string
  nr_status :: string

record rack_inspection =
  ri_description :: string
  ri_technician :: string
  ri_status :: string

text \<open>
  \<^verbatim>\<open>ComponentUserData\<close>, with the two fields the build and the click handler use
  beyond the interface (\<^verbatim>\<open>index\<close>, \<^verbatim>\<open>isRackMarker\<close>). Every field of the
  untyped \<^verbatim>\<open>userData\<close> object may be absent.
\<close>

record user_data =
  ud_componentId :: "string option"
  ud_type :: "string option"
  ud_bay :: "nat option"
  ud_level :: "nat option"
  ud_side :: "string option"
  ud_index :: "nat option"
  ud_label :: "string option"
  ud_isIndicator :: "bool option"
  ud_parentId :: "string option"
  ud_isDecoration :: "bool option"
  ud_rackId :: "string option"
  ud_rackName :: "string option"
  ud_isRackMarker :: "bool option"

text \<open>
  \<^verbatim>\<open>viewMode\<close> is a string that the three mode buttons alone set, to
  \<^verbatim>\<open>'normal'\<close>, \<^verbatim>\<open>'health'\<close> or \<^verbatim>\<open>'heatmap'\<close>.
\<close>

datatype view_mode = Normal | Health | Heatmap

datatype colour = Css string | Hex nat | Hsl real real real

record material =
  color :: colour
  metalness :: real
  roughness :: real
  emissive :: colour
  emissiveIntensity :: real

datatype mesh_material = MeshStandardMaterial material | MeshBasicMaterial colour

text \<open>
  A mesh added to a rack group. \<^verbatim>\<open>mapKey\<close> is the key of the call
  \<^verbatim>\<open>componentMapRef.current.set(key, mesh)\<close> the build makes for it, if it makes one.
\<close>

record scene_object =
  userData :: user_data
  mesh_material :: mesh_material
  mapKey :: "string option"

record rack_group =
  group_rackId :: string
  group_rackName :: string
  children :: "scene_object list"

record intersection =
  distance :: real
  object :: scene_object

record app_state =
  racks :: "rack list"
  selectedRackId :: string
  selectedComponent :: "string option"
  maintenanceRecords :: "string \<rightharpoonup> maintenance_record list"
  componentHealth :: "string \<rightharpoonup> string"
  viewMode :: view_mode
  activeTab :: string
  isDragging :: bool
  newRecord :: new_record
  newRackInspection :: rack_inspection
  annotatingImage :: "string option"
  selectedImageModal :: "string option"

datatype error = TypeError

text \<open>
  A handler that throws after it has called a state setter leaves that update queued:
  \<open>Inl (e, s)\<close> is "threw \<open>e\<close>, the state is \<open>s\<close>", \<open>Inr s\<close> is a normal return.
\<close>

type_synonym outcome = "(error \<times> app_state) + app_state"

definition defaultConfig :: config where
  "defaultConfig = \<lparr> bays = 3, levels = 4, bayWidth = 27 / 10, bayDepth = 12 / 10,
     levelHeight = 15 / 10, beamColor = ''#ff6b00'', frameColor = ''#4a90d9'',
     palletColor = ''#c4a574'', crossbarColor = ''#ff9500'', wireDeckColor = ''#666666'',
     showWireDecks = True, showPallets = False, palletFill = 70 \<rparr>"

definition createNewRack :: "string \<Rightarrow> string \<Rightarrow> real \<Rightarrow> real \<Rightarrow> rack" where
  "createNewRack i n x z =
     \<lparr> rack_id = i, rack_name = n, rack_position = (x, z), rack_rotation = 0,
       rack_config = defaultConfig \<rparr>"

definition initial_state :: app_state where
  "initial_state =
     \<lparr> racks = [createNewRack ''rack-1'' ''Rack 1'' 0 0], selectedRackId = ''rack-1'',
       selectedComponent = None, maintenanceRecords = Map.empty, componentHealth = Map.empty,
       viewMode = Normal, activeTab = ''home'', isDragging = False,
       newRecord = \<lparr> nr_type = ''inspection'', nr_description = [], nr_technician = [],
         nr_status = ''completed'' \<rparr>,
       newRackInspection = \<lparr> ri_description = [], ri_technician = [],
         ri_status = ''completed'' \<rparr>,
       annotatingImage = None, selectedImageModal = None \<rparr>"

section \<open>Component identity\<close>

text \<open>
  Template literals print a non-negative integer in decimal without leading zeros.
\<close>

definition digit_char :: "nat \<Rightarrow> char" where
  "digit_char d = ''0123456789'' ! d"

fun show_nat :: "nat \<Rightarrow> string" where
  "show_nat n =
     (if n < 10 then [digit_char n] else show_nat (n div 10) @ [digit_char (n mod 10)])"

declare show_nat.simps [simp del]

datatype side = Front | Back

fun side_str :: "side \<Rightarrow> string" where
  "side_str Front = ''front''"
| "side_str Back = ''back''"

text \<open>
  The seven template literals of the build effect, one constructor for each, with the
  loop indices each of them interpolates. An identifier is computed from the rack id and
  these alone.
\<close>

datatype component_key =
    UprightKey nat side
  | BraceKey nat nat
  | ConnectorKey nat nat
  | BeamKey nat nat side
  | CrossbarKey nat nat nat
  | DeckKey nat nat
  | PalletKey nat nat

fun componentId_of :: "string \<Rightarrow> component_key \<Rightarrow> string" where
  "componentId_of rid (UprightKey bay s) =
     rid @ ''-upright-'' @ show_nat bay @ ''-'' @ side_str s"
| "componentId_of rid (BraceKey bay level) =
     rid @ ''-brace-'' @ show_nat bay @ ''-'' @ show_nat level"
| "componentId_of rid (ConnectorKey bay level) =
     rid @ ''-connector-'' @ show_nat bay @ ''-'' @ show_nat level"
| "componentId_of rid (BeamKey bay level s) =
     rid @ ''-beam-'' @ show_nat bay @ ''-'' @ show_nat level @ ''-'' @ side_str s"
| "componentId_of rid (CrossbarKey bay level i) =
     rid @ ''-crossbar-'' @ show_nat bay @ ''-'' @ show_nat level @ ''-'' @ show_nat i"
| "componentId_of rid (DeckKey bay level) =
     rid @ ''-deck-'' @ show_nat bay @ ''-'' @ show_nat level"
| "componentId_of rid (PalletKey bay level) =
     rid @ ''-pallet-'' @ show_nat bay @ ''-'' @ show_nat level"

text \<open>Reading an identifier back: notions used only to reason about the scheme.\<close>

definition is_digit :: "char \<Rightarrow> bool" where
  "is_digit c = (48 \<le> (of_char c :: nat) \<and> (of_char c :: nat) \<le> 57)"

definition digit_val :: "char \<Rightarrow> nat" where
  "digit_val c = of_char c - 48"

definition read_nat :: "string \<Rightarrow> nat" where
  "read_nat s = foldl (\<lambda>a c. 10 * a + digit_val c) 0 s"

definition join_tokens :: "string list \<Rightarrow> string" where
  "join_tokens ts = concat (map (\<lambda>t. CHR ''-'' # t) ts)"

fun key_tokens :: "component_key \<Rightarrow> string list" where
  "key_tokens (UprightKey bay s) = [''upright'', show_nat bay, side_str s]"
| "key_tokens (BraceKey bay level) = [''brace'', show_nat bay, show_nat level]"
| "key_tokens (ConnectorKey bay level) = [''connector'', show_nat bay, show_nat level]"
| "key_tokens (BeamKey bay level s) = [''beam'', show_nat bay, show_nat level, side_str s]"
| "key_tokens (CrossbarKey bay level i) =
     [''crossbar'', show_nat bay, show_nat level, show_nat i]"
| "key_tokens (DeckKey bay level) = [''deck'', show_nat bay, show_nat level]"
| "key_tokens (PalletKey bay level) = [''pallet'', show_nat bay, show_nat level]"

definition is_kind_word :: "string \<Rightarrow> bool" where
  "is_kind_word w =
     (w \<in> {''upright'', ''brace'', ''connector'', ''beam'', ''crossbar'', ''deck'', ''pallet''})"

section \<open>Material and colouring policy\<close>

definition healthStatuses :: "(string \<times> string) list" where
  "healthStatuses =
     [(''good'', ''#10b981''), (''fair'', ''#f59e0b''), (''poor'', ''#f97316''),
      (''critical'', ''#ef4444'')]"

text \<open>A string read in a JavaScript condition is true when it is present and not empty.\<close>

definition truthy_str :: "string option \<Rightarrow> bool" where
  "truthy_str v = (case v of None \<Rightarrow> False | Some s \<Rightarrow> s \<noteq> [])"

definition truthy_bool :: "bool option \<Rightarrow> bool" where
  "truthy_bool v = (v = Some True)"

definition completed_inspections :: "maintenance_record list \<Rightarrow> maintenance_record list" where
  "completed_inspections records =
     filter (\<lambda>r. rec_type r = ''inspection'' \<and> status r = ''completed'') records"

text \<open>
  \<^verbatim>\<open>getDaysSinceInspection\<close>; \<open>now\<close> is the reading of \<^verbatim>\<open>Date.now()\<close>.
  The comparator \<^verbatim>\<open>(a, b) => t(b) - t(a)\<close> with the stable \<^verbatim>\<open>Array.prototype.sort\<close>
  orders by descending time, which is the stable ascending order of the negated time.
\<close>

definition getDaysSinceInspection :: "app_state \<Rightarrow> int \<Rightarrow> string \<Rightarrow> int" where
  "getDaysSinceInspection st now cid =
     (case maintenanceRecords st cid of
        None \<Rightarrow> 999
      | Some records \<Rightarrow>
          if length records = 0 then 999
          else let inspections = completed_inspections records in
            if length inspections = 0 then 999
            else let lastInspection = hd (sort_key (\<lambda>r. - timestamp r) inspections) in
              (now - timestamp lastInspection) div (1000 * 60 * 60 * 24))"

definition getHealthColor :: "app_state \<Rightarrow> string \<Rightarrow> string" where
  "getHealthColor st cid =
     (case componentHealth st cid of
        None \<Rightarrow> ''#888888''
      | Some health \<Rightarrow>
          (case find (\<lambda>h. fst h = health) healthStatuses of
             None \<Rightarrow> ''#888888''
           | Some healthInfo \<Rightarrow> if snd healthInfo = [] then ''#888888'' else snd healthInfo))"

definition getHeatmapColor :: "app_state \<Rightarrow> int \<Rightarrow> string \<Rightarrow> string" where
  "getHeatmapColor st now cid =
     (let days = getDaysSinceInspection st now cid in
      if days \<le> 7 then ''#10b981''
      else if days \<le> 30 then ''#f59e0b''
      else if days \<le> 90 then ''#f97316''
      else ''#ef4444'')"

definition createMaterial ::
  "app_state \<Rightarrow> int \<Rightarrow> string \<Rightarrow> string \<Rightarrow> bool \<Rightarrow> bool \<Rightarrow> material" where
  "createMaterial st now baseColor cid isSelected hasRecs =
     (if viewMode st = Health \<and> truthy_str (componentHealth st cid) then
        \<lparr> color = Css (getHealthColor st cid), metalness = 6 / 10, roughness = 4 / 10,
          emissive = Css (getHealthColor st cid), emissiveIntensity = 3 / 10 \<rparr>
      else if viewMode st = Heatmap then
        \<lparr> color = Css (getHeatmapColor st now cid), metalness = 6 / 10, roughness = 4 / 10,
          emissive = Css (getHeatmapColor st now cid), emissiveIntensity = 3 / 10 \<rparr>
      else if isSelected then
        \<lparr> color = Css baseColor, metalness = 6 / 10, roughness = 4 / 10,
          emissive = Hex 0x00ff88, emissiveIntensity = 5 / 10 \<rparr>
      else if hasRecs then
        \<lparr> color = Css baseColor, metalness = 6 / 10, roughness = 4 / 10,
          emissive = Hex 0xff6600, emissiveIntensity = 2 / 10 \<rparr>
      else
        \<lparr> color = Css baseColor, metalness = 6 / 10, roughness = 4 / 10,
          emissive = Hex 0x000000, emissiveIntensity = 0 \<rparr>)"

text \<open>The wire deck resolves its colour and material on a path of its own.\<close>

definition deckColor :: "app_state \<Rightarrow> int \<Rightarrow> string \<Rightarrow> string \<Rightarrow> bool \<Rightarrow> bool \<Rightarrow> colour" where
  "deckColor st now wireColor cid deckIsSelected deckHasRecords =
     (if viewMode st = Health \<and> truthy_str (componentHealth st cid) then
        Css (getHealthColor st cid)
      else if viewMode st = Heatmap then Css (getHeatmapColor st now cid)
      else if deckIsSelected then Hex 0x00ff88
      else if deckHasRecords then Hex 0xff9900
      else Css wireColor)"

definition wireMaterial :: "app_state \<Rightarrow> int \<Rightarrow> string \<Rightarrow> string \<Rightarrow> bool \<Rightarrow> bool \<Rightarrow> material" where
  "wireMaterial st now wireColor cid deckIsSelected deckHasRecords =
     (let dc = deckColor st now wireColor cid deckIsSelected deckHasRecords in
      \<lparr> color = dc, metalness = 7 / 10, roughness = 3 / 10,
        emissive = (if deckIsSelected then Hex 0x00ff88
                    else if viewMode st \<noteq> Normal then dc else Hex 0x000000),
        emissiveIntensity = (if deckIsSelected then 4 / 10
                             else if viewMode st \<noteq> Normal then 2 / 10 else 0) \<rparr>)"

section \<open>Scene builder\<close>

definition hasRecords :: "app_state \<Rightarrow> string \<Rightarrow> bool" where
  "hasRecords st cid =
     (case maintenanceRecords st cid of None \<Rightarrow> False | Some rs \<Rightarrow> 0 < length rs)"

definition no_userData :: user_data where
  "no_userData =
     \<lparr> ud_componentId = None, ud_type = None, ud_bay = None, ud_level = None, ud_side = None,
       ud_index = None, ud_label = None, ud_isIndicator = None, ud_parentId = None,
       ud_isDecoration = None, ud_rackId = None, ud_rackName = None, ud_isRackMarker = None \<rparr>"

definition indicator_obj :: "string \<Rightarrow> scene_object" where
  "indicator_obj cid =
     \<lparr> userData = no_userData \<lparr> ud_isIndicator := Some True, ud_parentId := Some cid \<rparr>,
       mesh_material = MeshBasicMaterial (Hex 0xff6600), mapKey = None \<rparr>"

definition indicator_objs :: "app_state \<Rightarrow> string \<Rightarrow> scene_object list" where
  "indicator_objs st cid =
     (if hasRecords st cid \<and> selectedComponent st \<noteq> Some cid \<and> viewMode st = Normal
      then [indicator_obj cid] else [])"

definition upright_obj :: "app_state \<Rightarrow> int \<Rightarrow> rack \<Rightarrow> nat \<Rightarrow> side \<Rightarrow> scene_object" where
  "upright_obj st now r bay s =
     (let cid = componentId_of (rack_id r) (UprightKey bay s) in
      \<lparr> userData = no_userData \<lparr> ud_componentId := Some cid, ud_type := Some ''upright'',
          ud_bay := Some bay, ud_side := Some (side_str s), ud_rackId := Some (rack_id r),
          ud_rackName := Some (rack_name r),
          ud_label := Some (rack_name r @ '' - Upright '' @ show_nat (bay + 1) @ '' (''
                             @ side_str s @ '')'') \<rparr>,
        mesh_material = MeshStandardMaterial
          (createMaterial st now (frameColor (rack_config r)) cid
             (selectedComponent st = Some cid) (hasRecords st cid)),
        mapKey = Some cid \<rparr>)"

definition upright_objs :: "app_state \<Rightarrow> int \<Rightarrow> rack \<Rightarrow> nat \<Rightarrow> side \<Rightarrow> scene_object list" where
  "upright_objs st now r bay s =
     upright_obj st now r bay s
     # indicator_objs st (componentId_of (rack_id r) (UprightKey bay s))"

definition brace_obj :: "app_state \<Rightarrow> int \<Rightarrow> rack \<Rightarrow> nat \<Rightarrow> nat \<Rightarrow> scene_object" where
  "brace_obj st now r bay level =
     (let cid = componentId_of (rack_id r) (BraceKey bay level) in
       \<lparr> userData = no_userData \<lparr> ud_componentId := Some cid, ud_type := Some ''brace'',
           ud_bay := Some bay, ud_level := Some level, ud_rackId := Some (rack_id r),
           ud_rackName := Some (rack_name r),
           ud_label := Some (rack_name r @ '' - Cross Brace '' @ show_nat (bay + 1) @ ''-''
                              @ show_nat (level + 1)) \<rparr>,
         mesh_material = MeshStandardMaterial
           (createMaterial st now (frameColor (rack_config r)) cid
              (selectedComponent st = Some cid) (hasRecords st cid)),
         mapKey = Some cid \<rparr>)"

definition brace_objs :: "app_state \<Rightarrow> int \<Rightarrow> rack \<Rightarrow> nat \<Rightarrow> nat \<Rightarrow> scene_object list" where
  "brace_objs st now r bay level = [brace_obj st now r bay level]"

definition connector_obj :: "app_state \<Rightarrow> int \<Rightarrow> rack \<Rightarrow> nat \<Rightarrow> nat \<Rightarrow> scene_object" where
  "connector_obj st now r bay level =
     (let cid = componentId_of (rack_id r) (ConnectorKey bay level) in
       \<lparr> userData = no_userData \<lparr> ud_componentId := Some cid, ud_type := Some ''connector'',
           ud_bay := Some bay, ud_level := Some level, ud_rackId := Some (rack_id r),
           ud_rackName := Some (rack_name r),
           ud_label := Some (rack_name r @ '' - Frame Connector '' @ show_nat (bay + 1) @ ''-''
                              @ show_nat level) \<rparr>,
         mesh_material = MeshStandardMaterial
           (createMaterial st now (frameColor (rack_config r)) cid
              (selectedComponent st = Some cid) (hasRecords st cid)),
         mapKey = Some cid \<rparr>)"

definition connector_objs :: "app_state \<Rightarrow> int \<Rightarrow> rack \<Rightarrow> nat \<Rightarrow> nat \<Rightarrow> scene_object list" where
  "connector_objs st now r bay level = [connector_obj st now r bay level]"

definition beam_obj ::
  "app_state \<Rightarrow> int \<Rightarrow> rack \<Rightarrow> nat \<Rightarrow> nat \<Rightarrow> side \<Rightarrow> scene_object" where
  "beam_obj st now r bay level s =
     (let cid = componentId_of (rack_id r) (BeamKey bay level s) in
      \<lparr> userData = no_userData \<lparr> ud_componentId := Some cid, ud_type := Some ''beam'',
          ud_bay := Some bay, ud_level := Some level, ud_side := Some (side_str s),
          ud_rackId := Some (rack_id r), ud_rackName := Some (rack_name r),
          ud_label := Some (rack_name r @ '' - Beam '' @ show_nat (bay + 1) @ ''-''
                             @ show_nat level @ '' ('' @ side_str s @ '')'') \<rparr>,
        mesh_material = MeshStandardMaterial
          (createMaterial st now (beamColor (rack_config r)) cid
             (selectedComponent st = Some cid) (hasRecords st cid)),
        mapKey = Some cid \<rparr>)"

definition beam_objs ::
  "app_state \<Rightarrow> int \<Rightarrow> rack \<Rightarrow> nat \<Rightarrow> nat \<Rightarrow> side \<Rightarrow> scene_object list" where
  "beam_objs st now r bay level s =
     beam_obj st now r bay level s
     # indicator_objs st (componentId_of (rack_id r) (BeamKey bay level s))"

definition numCrossbars :: nat where
  "numCrossbars = 3"

definition crossbar_obj ::
  "app_state \<Rightarrow> int \<Rightarrow> rack \<Rightarrow> nat \<Rightarrow> nat \<Rightarrow> nat \<Rightarrow> scene_object" where
  "crossbar_obj st now r bay level i =
     (let cid = componentId_of (rack_id r) (CrossbarKey bay level i) in
      \<lparr> userData = no_userData \<lparr> ud_componentId := Some cid, ud_type := Some ''crossbar'',
          ud_bay := Some bay, ud_level := Some level, ud_index := Some i,
          ud_rackId := Some (rack_id r), ud_rackName := Some (rack_name r),
          ud_label := Some (rack_name r @ '' - Cross Bar '' @ show_nat (bay + 1) @ ''-''
                             @ show_nat level @ ''-'' @ show_nat (i + 1)) \<rparr>,
        mesh_material = MeshStandardMaterial
          (createMaterial st now (crossbarColor (rack_config r)) cid
             (selectedComponent st = Some cid) (hasRecords st cid)),
        mapKey = Some cid \<rparr>)"

definition crossbar_objs ::
  "app_state \<Rightarrow> int \<Rightarrow> rack \<Rightarrow> nat \<Rightarrow> nat \<Rightarrow> nat \<Rightarrow> scene_object list" where
  "crossbar_objs st now r bay level i =
     crossbar_obj st now r bay level i
     # indicator_objs st (componentId_of (rack_id r) (CrossbarKey bay level i))"

definition numLongWires :: nat where
  "numLongWires = 8"

definition numCrossWires :: nat where
  "numCrossWires = 4"

text \<open>
  One wire deck: eight longitudinal wires, of which the first is the registered mesh, four
  cross wires, and the front, back, left and right frame. All of them carry the deck's
  \<^verbatim>\<open>componentId\<close>, and all but the first carry \<^verbatim>\<open>isDecoration: false\<close>.
\<close>

definition long_wire_obj ::
  "app_state \<Rightarrow> int \<Rightarrow> rack \<Rightarrow> nat \<Rightarrow> nat \<Rightarrow> nat \<Rightarrow> scene_object" where
  "long_wire_obj st now r bay level w =
     (let cid = componentId_of (rack_id r) (DeckKey bay level);
          m = MeshStandardMaterial
                (wireMaterial st now (wireDeckColor (rack_config r)) cid
                   (selectedComponent st = Some cid) (hasRecords st cid)) in
      if w = 0 then
        \<lparr> userData = no_userData \<lparr> ud_componentId := Some cid, ud_type := Some ''deck'',
            ud_bay := Some bay, ud_level := Some level, ud_rackId := Some (rack_id r),
            ud_rackName := Some (rack_name r),
            ud_label := Some (rack_name r @ '' - Wire Deck '' @ show_nat (bay + 1) @ ''-''
                               @ show_nat level) \<rparr>,
          mesh_material = m, mapKey = Some cid \<rparr>
      else
        \<lparr> userData = no_userData \<lparr> ud_componentId := Some cid, ud_type := Some ''deck'',
            ud_bay := Some bay, ud_level := Some level, ud_rackId := Some (rack_id r),
            ud_isDecoration := Some False \<rparr>,
          mesh_material = m, mapKey = None \<rparr>)"

definition deck_part_obj :: "app_state \<Rightarrow> int \<Rightarrow> rack \<Rightarrow> nat \<Rightarrow> nat \<Rightarrow> scene_object" where
  "deck_part_obj st now r bay level =
     (let cid = componentId_of (rack_id r) (DeckKey bay level) in
      \<lparr> userData = no_userData \<lparr> ud_componentId := Some cid, ud_type := Some ''deck'',
          ud_rackId := Some (rack_id r), ud_isDecoration := Some False \<rparr>,
        mesh_material = MeshStandardMaterial
          (wireMaterial st now (wireDeckColor (rack_config r)) cid
             (selectedComponent st = Some cid) (hasRecords st cid)),
        mapKey = None \<rparr>)"

definition deck_objs :: "app_state \<Rightarrow> int \<Rightarrow> rack \<Rightarrow> nat \<Rightarrow> nat \<Rightarrow> scene_object list" where
  "deck_objs st now r bay level =
     map (long_wire_obj st now r bay level) [0..<numLongWires]
     @ map (\<lambda>c. deck_part_obj st now r bay level) [0..<numCrossWires]
     @ replicate 4 (deck_part_obj st now r bay level)"

text \<open>
  The pallet of a cell is placed when \<^verbatim>\<open>Math.random() * 100 < palletFill\<close>. The
  readings of \<^verbatim>\<open>Math.random()\<close> are the sequence \<open>draws\<close>, and \<open>i\<close> counts the
  readings made so far: one for the test (not made when \<^verbatim>\<open>showPallets\<close> is false), and,
  when the pallet is placed, one for the height of the load box and one for its hue.
\<close>

definition pallet_obj :: "app_state \<Rightarrow> int \<Rightarrow> rack \<Rightarrow> nat \<Rightarrow> nat \<Rightarrow> scene_object" where
  "pallet_obj st now r bay level =
     (let cid = componentId_of (rack_id r) (PalletKey bay level) in
      \<lparr> userData = no_userData \<lparr> ud_componentId := Some cid, ud_type := Some ''pallet'',
          ud_bay := Some bay, ud_level := Some level, ud_rackId := Some (rack_id r),
          ud_rackName := Some (rack_name r),
          ud_label := Some (rack_name r @ '' - Pallet Position '' @ show_nat (bay + 1)
                             @ ''-'' @ show_nat level) \<rparr>,
        mesh_material = MeshStandardMaterial
          ((createMaterial st now (palletColor (rack_config r)) cid
              (selectedComponent st = Some cid) (hasRecords st cid))
           \<lparr> roughness := 8 / 10, metalness := 1 / 10 \<rparr>),
        mapKey = Some cid \<rparr>)"

definition load_box_obj :: "real \<Rightarrow> scene_object" where
  "load_box_obj hue =
     \<lparr> userData = no_userData \<lparr> ud_isDecoration := Some True \<rparr>,
       mesh_material = MeshStandardMaterial
         \<lparr> color = Hsl hue (3 / 10) (5 / 10), metalness = 0, roughness = 9 / 10,
           emissive = Hex 0x000000, emissiveIntensity = 1 \<rparr>,
       mapKey = None \<rparr>"

definition pallet_objs ::
  "app_state \<Rightarrow> int \<Rightarrow> rack \<Rightarrow> nat \<Rightarrow> nat \<Rightarrow> (nat \<Rightarrow> real) \<Rightarrow> nat \<Rightarrow> scene_object list \<times> nat" where
  "pallet_objs st now r bay level draws i =
     (if showPallets (rack_config r) then
        if draws i * 100 < palletFill (rack_config r) then
          ([pallet_obj st now r bay level, load_box_obj (draws (i + 2))], i + 3)
        else ([], i + 1)
      else ([], i))"

text \<open>A loop whose body reads random numbers: the counter is threaded through.\<close>

fun thread :: "('a \<Rightarrow> nat \<Rightarrow> 'b list \<times> nat) \<Rightarrow> 'a list \<Rightarrow> nat \<Rightarrow> 'b list \<times> nat" where
  "thread f [] i = ([], i)"
| "thread f (x # xs) i =
     (case f x i of (ys, j) \<Rightarrow> (case thread f xs j of (zs, k) \<Rightarrow> (ys @ zs, k)))"

text \<open>
  The first loop nest, \<^verbatim>\<open>for (bay = 0; bay <= bays; bay++)\<close>: the two uprights of
  the frame, then its braces (\<^verbatim>\<open>level < levels\<close>), then its connectors
  (\<^verbatim>\<open>level <= levels\<close>).
\<close>

definition frame_objs :: "app_state \<Rightarrow> int \<Rightarrow> rack \<Rightarrow> nat \<Rightarrow> scene_object list" where
  "frame_objs st now r bay =
     concat (map (upright_objs st now r bay) [Front, Back])
     @ concat (map (brace_objs st now r bay) [0..<nat (levels (rack_config r))])
     @ concat (map (connector_objs st now r bay) [0..<nat (levels (rack_config r) + 1)])"

text \<open>
  The body of the second loop nest, \<^verbatim>\<open>for (bay = 0; bay < bays; bay++)\<close> and
  \<^verbatim>\<open>for (level = 1; level <= levels; level++)\<close>.
\<close>

definition fixed_cell_objs :: "app_state \<Rightarrow> int \<Rightarrow> rack \<Rightarrow> nat \<Rightarrow> nat \<Rightarrow> scene_object list" where
  "fixed_cell_objs st now r bay level =
     concat (map (beam_objs st now r bay level) [Front, Back])
     @ concat (map (crossbar_objs st now r bay level) [0..<numCrossbars])
     @ (if showWireDecks (rack_config r) then deck_objs st now r bay level else [])"

definition cell_objs ::
  "app_state \<Rightarrow> int \<Rightarrow> rack \<Rightarrow> (nat \<Rightarrow> real) \<Rightarrow> nat \<Rightarrow> nat \<Rightarrow> nat \<Rightarrow> scene_object list \<times> nat" where
  "cell_objs st now r draws bay level i =
     (case pallet_objs st now r bay level draws i of
        (ps, j) \<Rightarrow> (fixed_cell_objs st now r bay level @ ps, j))"

definition bay_objs ::
  "app_state \<Rightarrow> int \<Rightarrow> rack \<Rightarrow> (nat \<Rightarrow> real) \<Rightarrow> nat \<Rightarrow> nat \<Rightarrow> scene_object list \<times> nat" where
  "bay_objs st now r draws bay i =
     thread (cell_objs st now r draws bay) [1..<nat (levels (rack_config r)) + 1] i"

definition rack_objs ::
  "app_state \<Rightarrow> int \<Rightarrow> (nat \<Rightarrow> real) \<Rightarrow> rack \<Rightarrow> nat \<Rightarrow> scene_object list \<times> nat" where
  "rack_objs st now draws r i =
     (case thread (bay_objs st now r draws) [0..<nat (bays (rack_config r))] i of
        (cells, j) \<Rightarrow>
          (concat (map (frame_objs st now r) [0..<nat (bays (rack_config r) + 1)]) @ cells, j))"

definition build_rack ::
  "app_state \<Rightarrow> int \<Rightarrow> (nat \<Rightarrow> real) \<Rightarrow> rack \<Rightarrow> nat \<Rightarrow> rack_group list \<times> nat" where
  "build_rack st now draws r i =
     (case rack_objs st now draws r i of
        (os, j) \<Rightarrow>
          ([\<lparr> group_rackId = rack_id r, group_rackName = rack_name r, children = os \<rparr>], j))"

text \<open>
  The build effect, for a mounted group of racks: every group of the previous scene is
  disposed of and the registry is cleared, so the scene and the registry after the effect
  are those of this pass alone. \<open>now\<close> is the reading of \<^verbatim>\<open>Date.now()\<close> during the
  pass, which is synchronous, taken as one value for all the materials it makes.
\<close>

definition build_scene :: "app_state \<Rightarrow> int \<Rightarrow> (nat \<Rightarrow> real) \<Rightarrow> rack_group list" where
  "build_scene st now draws = fst (thread (build_rack st now draws) (racks st) 0)"

definition scene_objects :: "rack_group list \<Rightarrow> scene_object list" where
  "scene_objects gs = concat (map children gs)"

text \<open>The keys of \<^verbatim>\<open>componentMapRef.current\<close> after a build, in the order of the calls.\<close>

definition registered_ids :: "scene_object list \<Rightarrow> string list" where
  "registered_ids os = List.map_filter mapKey os"

definition ids_of_type :: "string \<Rightarrow> scene_object list \<Rightarrow> string list" where
  "ids_of_type t os =
     List.map_filter (\<lambda>ob. if ud_type (userData ob) = Some t then mapKey ob else None) os"

section \<open>Picking\<close>

text \<open>
  \<^verbatim>\<open>handleClick\<close>. The argument \<open>hits\<close> is the array \<^verbatim>\<open>intersects\<close> that
  \<^verbatim>\<open>raycaster.intersectObjects(children, true)\<close> returns, which three.js sorts by
  distance, nearest first; \<open>refs_ok\<close> says that the container, the camera and the group
  of racks exist.
\<close>

fun click_loop :: "app_state \<Rightarrow> intersection list \<Rightarrow> app_state" where
  "click_loop st [] = st"
| "click_loop st (h # hs) =
     (let ud = userData (object h) in
      if truthy_bool (ud_isRackMarker ud) \<and> truthy_str (ud_rackId ud) then
        (case ud_rackId ud of
           Some rid \<Rightarrow> st \<lparr> selectedRackId := rid, activeTab := ''home'' \<rparr>
         | None \<Rightarrow> st)
      else if truthy_str (ud_componentId ud) \<and> \<not> truthy_bool (ud_isDecoration ud) then
        (case ud_rackId ud of
           Some rid \<Rightarrow>
             if rid \<noteq> [] then
               st \<lparr> selectedComponent := ud_componentId ud, selectedRackId := rid,
                    activeTab := ''component'' \<rparr>
             else st \<lparr> selectedComponent := ud_componentId ud, activeTab := ''component'' \<rparr>
         | None \<Rightarrow> st \<lparr> selectedComponent := ud_componentId ud, activeTab := ''component'' \<rparr>)
      else if truthy_bool (ud_isIndicator ud) \<and> truthy_str (ud_parentId ud) then
        st \<lparr> selectedComponent := ud_parentId ud, activeTab := ''component'' \<rparr>
      else click_loop st hs)"

definition handleClick :: "bool \<Rightarrow> app_state \<Rightarrow> intersection list \<Rightarrow> app_state" where
  "handleClick refs_ok st hits =
     (if \<not> refs_ok then st else if isDragging st then st else click_loop st hits)"

text \<open>The three tests of the loop, as predicates on a hit.\<close>

definition is_marker_hit :: "intersection \<Rightarrow> bool" where
  "is_marker_hit h =
     (truthy_bool (ud_isRackMarker (userData (object h)))
      \<and> truthy_str (ud_rackId (userData (object h))))"

definition is_component_hit :: "intersection \<Rightarrow> bool" where
  "is_component_hit h =
     (truthy_str (ud_componentId (userData (object h)))
      \<and> \<not> truthy_bool (ud_isDecoration (userData (object h))))"

definition is_indicator_hit :: "intersection \<Rightarrow> bool" where
  "is_indicator_hit h =
     (truthy_bool (ud_isIndicator (userData (object h)))
      \<and> truthy_str (ud_parentId (userData (object h))))"

definition addressable :: "intersection \<Rightarrow> bool" where
  "addressable h = (is_marker_hit h \<or> is_component_hit h \<or> is_indicator_hit h)"

section \<open>Maintenance records\<close>


definition records_of :: "app_state \<Rightarrow> string \<Rightarrow> maintenance_record list" where
  "records_of st cid = (case maintenanceRecords st cid of None \<Rightarrow> [] | Some rs \<Rightarrow> rs)"












fun state_of :: "outcome \<Rightarrow> app_state" where
  "state_of (Inl (e, s)) = s"
| "state_of (Inr s) = s"


section \<open>Rack management\<close>

text \<open>\<open>now\<close> is the reading of \<^verbatim>\<open>Date.now()\<close>, in milliseconds since the epoch.\<close>

definition addNewRack :: "app_state \<Rightarrow> nat \<Rightarrow> app_state" where
  "addNewRack st now =
     (let newId = ''rack-'' @ show_nat now;
          newRackNum = length (racks st) + 1;
          maxX = foldl (\<lambda>m r. max m (fst (rack_position r)
                    + real_of_int (bays (rack_config r)) * bayWidth (rack_config r))) 0 (racks st);
          newRack = createNewRack newId (''Rack '' @ show_nat newRackNum) (maxX + 3) 0
      in st \<lparr> racks := racks st @ [newRack], selectedRackId := newId \<rparr>)"

definition deleteRack :: "app_state \<Rightarrow> string \<Rightarrow> outcome" where
  "deleteRack st rackId =
     (if length (racks st) \<le> 1 then Inr st
      else
        (let newRacks = filter (\<lambda>r. rack_id r \<noteq> rackId) (racks st) in
         if selectedRackId st = rackId then
           (case newRacks of
              [] \<Rightarrow> Inl (TypeError, st \<lparr> racks := newRacks \<rparr>)
            | r # _ \<Rightarrow> Inr (st \<lparr> racks := newRacks, selectedRackId := rack_id r \<rparr>))
         else Inr (st \<lparr> racks := newRacks \<rparr>)))"

definition duplicateRack :: "app_state \<Rightarrow> string \<Rightarrow> nat \<Rightarrow> app_state" where
  "duplicateRack st rackId now =
     (case find (\<lambda>r. rack_id r = rackId) (racks st) of
        None \<Rightarrow> st
      | Some sourcRack \<Rightarrow>
          (let newId = ''rack-'' @ show_nat now;
               newRack = sourcRack \<lparr> rack_id := newId,
                 rack_name := rack_name sourcRack @ '' (Copy)'',
                 rack_position := (fst (rack_position sourcRack) + 5,
                                   snd (rack_position sourcRack)) \<rparr>
           in st \<lparr> racks := racks st @ [newRack], selectedRackId := newId \<rparr>))"

datatype rack_op = AddNewRack nat | DuplicateRack string nat | DeleteRack string

fun rack_step :: "app_state \<Rightarrow> rack_op \<Rightarrow> app_state" where
  "rack_step st (AddNewRack now) = addNewRack st now"
| "rack_step st (DuplicateRack rackId now) = duplicateRack st rackId now"
| "rack_step st (DeleteRack rackId) = state_of (deleteRack st rackId)"

definition run_rack_ops :: "app_state \<Rightarrow> rack_op list \<Rightarrow> app_state" where
  "run_rack_ops st ops = foldl rack_step st ops"

section \<open>Loading and importing\<close>





section \<open>The operations of the application\<close>



section \<open>Notions used to state the properties\<close>

definition latest_completed_inspection :: "app_state \<Rightarrow> string \<Rightarrow> int option" where
  "latest_completed_inspection st cid =
     (let inspections = completed_inspections (records_of st cid) in
      if inspections = [] then None else Some (Max (set (map timestamp inspections))))"

definition msPerDay :: int where
  "msPerDay = 1000 * 60 * 60 * 24"

definition inspected_state :: app_state where
  "inspected_state =
     initial_state \<lparr> viewMode := Heatmap,
       maintenanceRecords :=
         [''rack-1-beam-0-1-front'' \<mapsto>
            [\<lparr> rec_id = 1, rec_type = ''repair'', description = ''weld'', technician = [],
               status = ''completed'', timestamp = 500, componentId = ''rack-1-beam-0-1-front'',
               images = None \<rparr>,
             \<lparr> rec_id = 2, rec_type = ''inspection'', description = ''check'', technician = [],
               status = ''completed'', timestamp = 0, componentId = ''rack-1-beam-0-1-front'',
               images = None \<rparr>,
             \<lparr> rec_id = 3, rec_type = ''inspection'', description = ''todo'', technician = [],
               status = ''pending'', timestamp = 900, componentId = ''rack-1-beam-0-1-front'',
               images = None \<rparr>]] \<rparr>"

definition graded_state :: app_state where
  "graded_state =
     inspected_state \<lparr> componentHealth := [''rack-1-beam-0-1-front'' \<mapsto> ''critical''] \<rparr>"

definition rack1 :: rack where
  "rack1 = createNewRack ''rack-1'' ''Rack 1'' 0 0"

definition strand_hits :: "intersection list" where
  "strand_hits =
     [\<lparr> distance = 1, object = load_box_obj 0 \<rparr>,
      \<lparr> distance = 2, object = long_wire_obj initial_state 0 rack1 0 1 1 \<rparr>,
      \<lparr> distance = 3, object = beam_obj initial_state 0 rack1 0 1 Back \<rparr>]"


definition same_ms_ops :: "rack_op list" where
  "same_ms_ops =
     [AddNewRack 1700000000000, DuplicateRack ''rack-1'' 1700000000000, DeleteRack ''rack-1'']"

definition twin_rack_state :: app_state where
  "twin_rack_state =
     run_rack_ops initial_state
       [AddNewRack 1700000000000, DuplicateRack ''rack-1'' 1700000000000]"















text \<open>The registered ids of the meshes whose \<^verbatim>\<open>userData\<close> passes a test, and the
  keys whose ids the build registers for each kind.\<close>

definition ids_where :: "(user_data \<Rightarrow> bool) \<Rightarrow> scene_object list \<Rightarrow> string list" where
  "ids_where P os = List.map_filter (\<lambda>ob. if P (userData ob) then mapKey ob else None) os"

definition upright_keys :: "nat \<Rightarrow> component_key list" where
  "upright_keys b = concat (map (\<lambda>bay. [UprightKey bay Front, UprightKey bay Back]) [0..<b])"

definition brace_keys :: "nat \<Rightarrow> nat \<Rightarrow> component_key list" where
  "brace_keys b l = concat (map (\<lambda>bay. map (BraceKey bay) [0..<l]) [0..<b])"

definition connector_keys :: "nat \<Rightarrow> nat \<Rightarrow> component_key list" where
  "connector_keys b l = concat (map (\<lambda>bay. map (ConnectorKey bay) [0..<l]) [0..<b])"

definition beam_keys :: "nat \<Rightarrow> nat \<Rightarrow> component_key list" where
  "beam_keys b l =
     concat (map (\<lambda>bay. concat (map (\<lambda>level. [BeamKey bay level Front, BeamKey bay level Back])
                                    [1..<l + 1])) [0..<b])"

definition crossbar_keys :: "nat \<Rightarrow> nat \<Rightarrow> component_key list" where
  "crossbar_keys b l =
     concat (map (\<lambda>bay. concat (map (\<lambda>level. map (CrossbarKey bay level) [0..<numCrossbars])
                                    [1..<l + 1])) [0..<b])"

definition structural_ids :: "scene_object list \<Rightarrow> string list" where
  "structural_ids os = ids_where (\<lambda>ud. ud_type ud \<noteq> Some ''pallet'') os"

definition deterministic_pallets :: "config \<Rightarrow> bool" where
  "deterministic_pallets c = (\<not> showPallets c \<or> palletFill c \<le> 0 \<or> 100 \<le> palletFill c)"

definition pallet_rack :: rack where
  "pallet_rack = rack1 \<lparr> rack_config := defaultConfig \<lparr> showPallets := True \<rparr> \<rparr>"

definition pallet_state :: app_state where
  "pallet_state = initial_state \<lparr> racks := [pallet_rack] \<rparr>"

fun key_bay :: "component_key \<Rightarrow> nat" where
  "key_bay (UprightKey bay s) = bay"
| "key_bay (BraceKey bay level) = bay"
| "key_bay (ConnectorKey bay level) = bay"
| "key_bay (BeamKey bay level s) = bay"
| "key_bay (CrossbarKey bay level i) = bay"
| "key_bay (DeckKey bay level) = bay"
| "key_bay (PalletKey bay level) = bay"

fun key_level :: "component_key \<Rightarrow> nat" where
  "key_level (UprightKey bay s) = 0"
| "key_level (BraceKey bay level) = level"
| "key_level (ConnectorKey bay level) = level"
| "key_level (BeamKey bay level s) = level"
| "key_level (CrossbarKey bay level i) = level"
| "key_level (DeckKey bay level) = level"
| "key_level (PalletKey bay level) = level"

fun is_frame_key :: "component_key \<Rightarrow> bool" where
  "is_frame_key (UprightKey bay s) = True"
| "is_frame_key (BraceKey bay level) = True"
| "is_frame_key (ConnectorKey bay level) = True"
| "is_frame_key k = False"

fun is_pallet_key :: "component_key \<Rightarrow> bool" where
  "is_pallet_key (PalletKey bay level) = True"
| "is_pallet_key k = False"

definition frame_keys :: "rack \<Rightarrow> nat \<Rightarrow> component_key list" where
  "frame_keys r bay =
     [UprightKey bay Front, UprightKey bay Back]
     @ map (BraceKey bay) [0..<nat (levels (rack_config r))]
     @ map (ConnectorKey bay) [0..<nat (levels (rack_config r) + 1)]"

definition cell_keys :: "rack \<Rightarrow> (nat \<Rightarrow> real) \<Rightarrow> nat \<Rightarrow> nat \<Rightarrow> nat \<Rightarrow> component_key list" where
  "cell_keys r draws bay level i =
     [BeamKey bay level Front, BeamKey bay level Back]
     @ map (CrossbarKey bay level) [0..<numCrossbars]
     @ (if showWireDecks (rack_config r) then [DeckKey bay level] else [])
     @ (if showPallets (rack_config r) \<and> draws i * 100 < palletFill (rack_config r)
        then [PalletKey bay level] else [])"

text \<open>A run of rack operations in which every new rack gets an id that no rack of the
  collection has.\<close>

definition fresh_id :: "app_state \<Rightarrow> rack_op \<Rightarrow> bool" where
  "fresh_id st op =
     (case op of
        AddNewRack now \<Rightarrow> ''rack-'' @ show_nat now \<notin> set (map rack_id (racks st))
      | DuplicateRack rackId now \<Rightarrow> ''rack-'' @ show_nat now \<notin> set (map rack_id (racks st))
      | DeleteRack rackId \<Rightarrow> True)"

fun fresh_run :: "app_state \<Rightarrow> rack_op list \<Rightarrow> bool" where
  "fresh_run st [] = True"
| "fresh_run st (op # ops) = (fresh_id st op \<and> fresh_run (rack_step st op) ops)"

section \<open>The identity scheme is injective\<close>

lemma digit_char_cases:
  assumes "d < 10"
  shows "is_digit (digit_char d) \<and> digit_val (digit_char d) = d"
proof -
  from assms have "d = 0 \<or> d = 1 \<or> d = 2 \<or> d = 3 \<or> d = 4 \<or> d = 5 \<or> d = 6
      \<or> d = 7 \<or> d = 8 \<or> d = 9"
    by arith
  then show ?thesis
    by (elim disjE) (simp_all add: digit_char_def is_digit_def digit_val_def)
qed

lemma digit_val_digit_char: "d < 10 \<Longrightarrow> digit_val (digit_char d) = d"
  by (simp add: digit_char_cases)

lemma is_digit_digit_char: "d < 10 \<Longrightarrow> is_digit (digit_char d)"
  by (simp add: digit_char_cases)

lemma read_nat_snoc: "read_nat (s @ [c]) = 10 * read_nat s + digit_val c"
  by (simp add: read_nat_def)

lemma read_show_nat: "read_nat (show_nat n) = n"
proof (induction n rule: show_nat.induct)
  case (1 n)
  show ?case
  proof (cases "n < 10")
    case True
    then show ?thesis
      by (simp add: show_nat.simps [of n] read_nat_def digit_val_digit_char)
  next
    case False
    with 1 show ?thesis
      by (simp add: show_nat.simps [of n] read_nat_snoc digit_val_digit_char)
  qed
qed

lemma show_nat_inj [simp]: "show_nat m = show_nat n \<longleftrightarrow> m = n"
  by (metis read_show_nat)

lemma show_nat_digits: "c \<in> set (show_nat n) \<Longrightarrow> is_digit c"
proof (induction n rule: show_nat.induct)
  case (1 n)
  show ?case
  proof (cases "n < 10")
    case True
    with 1(2) show ?thesis
      by (simp add: show_nat.simps [of n] is_digit_digit_char)
  next
    case False
    with 1 show ?thesis
      by (auto simp add: show_nat.simps [of n] is_digit_digit_char)
  qed
qed

lemma show_nat_nonempty: "show_nat n \<noteq> []"
  by (subst show_nat.simps) simp

lemma show_nat_no_dash: "CHR ''-'' \<notin> set (show_nat n)"
  using show_nat_digits [of "CHR ''-''" n] by (auto simp: is_digit_def)

lemma not_all_digits_neq_show_nat: "c \<in> set w \<Longrightarrow> \<not> is_digit c \<Longrightarrow> show_nat n \<noteq> w"
  using show_nat_digits by blast

lemma show_nat_not_kind: "\<not> is_kind_word (show_nat n)"
proof -
  have "show_nat n \<noteq> ''upright''"
    by (rule not_all_digits_neq_show_nat [of "CHR ''u''"]) (simp_all add: is_digit_def)
  moreover have "show_nat n \<noteq> ''brace''"
    by (rule not_all_digits_neq_show_nat [of "CHR ''b''"]) (simp_all add: is_digit_def)
  moreover have "show_nat n \<noteq> ''connector''"
    by (rule not_all_digits_neq_show_nat [of "CHR ''c''"]) (simp_all add: is_digit_def)
  moreover have "show_nat n \<noteq> ''beam''"
    by (rule not_all_digits_neq_show_nat [of "CHR ''b''"]) (simp_all add: is_digit_def)
  moreover have "show_nat n \<noteq> ''crossbar''"
    by (rule not_all_digits_neq_show_nat [of "CHR ''c''"]) (simp_all add: is_digit_def)
  moreover have "show_nat n \<noteq> ''deck''"
    by (rule not_all_digits_neq_show_nat [of "CHR ''d''"]) (simp_all add: is_digit_def)
  moreover have "show_nat n \<noteq> ''pallet''"
    by (rule not_all_digits_neq_show_nat [of "CHR ''p''"]) (simp_all add: is_digit_def)
  ultimately show ?thesis by (simp add: is_kind_word_def)
qed

lemma side_str_not_kind: "\<not> is_kind_word (side_str s)"
  by (cases s) (simp_all add: is_kind_word_def)

lemma side_str_no_dash: "CHR ''-'' \<notin> set (side_str s)"
  by (cases s) simp_all

lemma side_str_inj [simp]: "side_str s = side_str t \<longleftrightarrow> s = t"
  by (cases s; cases t) simp_all

lemma show_nat_not_side: "show_nat n \<noteq> side_str s"
proof (cases s)
  case Front
  show ?thesis unfolding Front side_str.simps
    by (rule not_all_digits_neq_show_nat [of "CHR ''f''"]) (simp_all add: is_digit_def)
next
  case Back
  show ?thesis unfolding Back side_str.simps
    by (rule not_all_digits_neq_show_nat [of "CHR ''b''"]) (simp_all add: is_digit_def)
qed

lemma side_str_not_show_nat: "side_str s \<noteq> show_nat n"
  using show_nat_not_side [of n s] by simp

lemma componentId_of_tokens: "componentId_of rid k = rid @ join_tokens (key_tokens k)"
  by (cases k) (simp_all add: join_tokens_def)

lemma key_tokens_shape:
  "\<exists>w args. key_tokens k = w # args \<and> is_kind_word w \<and> (\<forall>a \<in> set args. \<not> is_kind_word a)"
  by (cases k) (simp_all add: is_kind_word_def [of "''upright''"] is_kind_word_def [of "''brace''"]
      is_kind_word_def [of "''connector''"] is_kind_word_def [of "''beam''"]
      is_kind_word_def [of "''crossbar''"] is_kind_word_def [of "''deck''"]
      is_kind_word_def [of "''pallet''"] show_nat_not_kind side_str_not_kind)

lemma key_tokens_no_dash: "t \<in> set (key_tokens k) \<Longrightarrow> CHR ''-'' \<notin> set t"
  by (cases k) (auto simp: show_nat_no_dash side_str_no_dash)

lemma key_tokens_inj: "key_tokens k = key_tokens k' \<Longrightarrow> k = k'"
  by (cases k; cases k') (simp_all add: side_str_not_show_nat side_str_not_show_nat [symmetric])

lemma sep_prefix_unique:
  "x \<notin> set t \<Longrightarrow> x \<notin> set u \<Longrightarrow> t @ x # a = u @ x # b \<Longrightarrow> t = u \<and> a = b"
proof (induction t arbitrary: u)
  case Nil
  then show ?case by (cases u) auto
next
  case (Cons c t)
  then show ?case by (cases u) auto
qed

lemma sep_suffix_unique:
  assumes "x \<notin> set t" "x \<notin> set u" "a @ x # t = b @ x # u"
  shows "a = b \<and> t = u"
proof -
  from assms(3) have "rev (a @ x # t) = rev (b @ x # u)" by simp
  then have "rev t @ x # rev a = rev u @ x # rev b" by simp
  with assms(1,2) have "rev t = rev u \<and> rev a = rev b"
    using sep_prefix_unique [of x "rev t" "rev u" "rev a" "rev b"] by simp
  then show ?thesis by simp
qed

lemma join_tokens_snoc: "join_tokens (ts @ [t]) = join_tokens ts @ CHR ''-'' # t"
  by (simp add: join_tokens_def)

lemma join_tokens_suffix:
  assumes "\<forall>t \<in> set ts. CHR ''-'' \<notin> set t" "\<forall>u \<in> set us. CHR ''-'' \<notin> set u"
    and "a @ join_tokens ts = b @ join_tokens us" and "length ts \<le> length us"
  shows "\<exists>vs. us = vs @ ts \<and> a = b @ join_tokens vs"
  using assms
proof (induction ts arbitrary: us rule: rev_induct)
  case Nil
  then show ?case by (simp add: join_tokens_def)
next
  case (snoc t ts)
  from snoc.prems(4) have "us \<noteq> []" by auto
  then obtain us' u where us: "us = us' @ [u]"
    by (cases us rule: rev_cases) simp_all
  have e: "(a @ join_tokens ts) @ CHR ''-'' # t = (b @ join_tokens us') @ CHR ''-'' # u"
    using snoc.prems(3) unfolding us join_tokens_snoc by simp
  have nt: "CHR ''-'' \<notin> set t"
    using snoc.prems(1) by simp
  have nu: "CHR ''-'' \<notin> set u"
    using snoc.prems(2) unfolding us by simp
  have both: "a @ join_tokens ts = b @ join_tokens us' \<and> t = u"
    by (rule sep_suffix_unique [OF nt nu e])
  have p1: "\<forall>t \<in> set ts. CHR ''-'' \<notin> set t"
    using snoc.prems(1) by simp
  have p2: "\<forall>u \<in> set us'. CHR ''-'' \<notin> set u"
    using snoc.prems(2) unfolding us by simp
  have p4: "length ts \<le> length us'"
    using snoc.prems(4) unfolding us by simp
  from both have p3: "a @ join_tokens ts = b @ join_tokens us'" ..
  obtain vs where vs: "us' = vs @ ts" "a = b @ join_tokens vs"
    using snoc.IH [OF p1 p2 p3 p4] by blast
  have "us = vs @ ts @ [t]"
    using us vs(1) both by simp
  with vs(2) show ?case by blast
qed

lemma componentId_of_inj_le:
  assumes "componentId_of r k = componentId_of r' k'"
    and "length (key_tokens k) \<le> length (key_tokens k')"
  shows "r = r' \<and> k = k'"
proof -
  from assms(1) have e: "r @ join_tokens (key_tokens k) = r' @ join_tokens (key_tokens k')"
    by (simp add: componentId_of_tokens)
  obtain vs where vs: "key_tokens k' = vs @ key_tokens k" and r: "r = r' @ join_tokens vs"
    using join_tokens_suffix [OF _ _ e assms(2)] key_tokens_no_dash by blast
  obtain w args where k: "key_tokens k = w # args" "is_kind_word w"
    using key_tokens_shape by blast
  obtain w' args' where k': "key_tokens k' = w' # args'" "\<forall>a \<in> set args'. \<not> is_kind_word a"
    using key_tokens_shape by blast
  have "vs = []"
  proof (cases vs)
    case Nil
    then show ?thesis .
  next
    case (Cons v vs')
    with vs k k' have "args' = vs' @ w # args" by simp
    then have "w \<in> set args'" by simp
    with k(2) k'(2) show ?thesis by blast
  qed
  with vs r show ?thesis by (simp add: join_tokens_def key_tokens_inj)
qed

lemma componentId_of_inj:
  "componentId_of r k = componentId_of r' k' \<Longrightarrow> r = r' \<and> k = k'"
  using componentId_of_inj_le [of r k r' k'] componentId_of_inj_le [of r' k' r k]
  by (metis nat_le_linear)

section \<open>Heatmap colouring\<close>

lemma hd_sort_key_latest:
  assumes "xs \<noteq> []"
  shows "timestamp (hd (sort_key (\<lambda>r. - timestamp r) xs)) = Max (set (map timestamp xs))"
proof -
  let ?ys = "sort_key (\<lambda>r. - timestamp r) xs"
  have ne: "?ys \<noteq> []" using assms by (metis length_sort length_0_conv)
  then obtain y ys where ys: "?ys = y # ys" by (cases ?ys) auto
  have srt: "sorted (map (\<lambda>r. - timestamp r) ?ys)" by (rule sorted_sort_key)
  have st: "set ?ys = set xs" by simp
  have yin: "y \<in> set xs" using st ys by (metis list.set_intros(1))
  have "\<forall>z \<in> set xs. timestamp z \<le> timestamp y"
  proof
    fix z assume "z \<in> set xs"
    then have "z \<in> set (y # ys)" using st ys by simp
    then show "timestamp z \<le> timestamp y"
      using srt unfolding ys by auto
  qed
  then have "Max (set (map timestamp xs)) = timestamp y"
    using yin by (intro Max_eqI) auto
  then show ?thesis by (simp add: ys)
qed

lemma days_since_latest:
  assumes "latest_completed_inspection st cid = Some t"
  shows "getDaysSinceInspection st now cid = (now - t) div msPerDay"
proof -
  let ?ins = "completed_inspections (records_of st cid)"
  from assms have ne: "?ins \<noteq> []" and t: "t = Max (set (map timestamp ?ins))"
    by (auto simp: latest_completed_inspection_def Let_def split: if_splits)
  from ne have "\<exists>rs. maintenanceRecords st cid = Some rs \<and> rs \<noteq> []"
    by (cases "maintenanceRecords st cid") (auto simp: records_of_def completed_inspections_def)
  then obtain rs where rs: "maintenanceRecords st cid = Some rs" "rs \<noteq> []"
    by blast
  have ins: "completed_inspections rs = ?ins" using rs by (simp add: records_of_def)
  show ?thesis
    using ne rs(2) hd_sort_key_latest [OF ne] t
    by (simp add: getDaysSinceInspection_def rs(1) ins Let_def msPerDay_def)
qed

lemma days_since_never:
  assumes "latest_completed_inspection st cid = None"
  shows "getDaysSinceInspection st now cid = 999"
proof -
  from assms have "completed_inspections (records_of st cid) = []"
    by (auto simp: latest_completed_inspection_def Let_def split: if_splits)
  then show ?thesis
    by (cases "maintenanceRecords st cid")
       (auto simp: getDaysSinceInspection_def records_of_def Let_def)
qed

lemma createMaterial_heatmap:
  "viewMode st = Heatmap \<Longrightarrow>
     color (createMaterial st now base cid sel hr) = Css (getHeatmapColor st now cid)"
  by (simp add: createMaterial_def)

text \<open>
  Claim C3. In heatmap view the material of a component whose latest completed inspection
  is exactly 7, 30, 90 or 91 days old has the green, yellow, orange and red tier colour
  respectively, and a component without any completed inspection has the red one.
\<close>

theorem heatmap_tiers:
  assumes "viewMode st = Heatmap"
  shows "(latest_completed_inspection st cid = Some t \<and> now - t = 7 * msPerDay
            \<longrightarrow> color (createMaterial st now base cid sel hr) = Css ''#10b981'')
       \<and> (latest_completed_inspection st cid = Some t \<and> now - t = 30 * msPerDay
            \<longrightarrow> color (createMaterial st now base cid sel hr) = Css ''#f59e0b'')
       \<and> (latest_completed_inspection st cid = Some t \<and> now - t = 90 * msPerDay
            \<longrightarrow> color (createMaterial st now base cid sel hr) = Css ''#f97316'')
       \<and> (latest_completed_inspection st cid = Some t \<and> now - t = 91 * msPerDay
            \<longrightarrow> color (createMaterial st now base cid sel hr) = Css ''#ef4444'')
       \<and> (latest_completed_inspection st cid = None
            \<longrightarrow> color (createMaterial st now base cid sel hr) = Css ''#ef4444'')"
proof -
  have c: "color (createMaterial st now base cid sel hr) = Css (getHeatmapColor st now cid)"
    using assms by (rule createMaterial_heatmap)
  have d: "\<And>k. latest_completed_inspection st cid = Some t \<Longrightarrow> now - t = k * msPerDay
            \<Longrightarrow> getDaysSinceInspection st now cid = k"
    by (simp add: days_since_latest msPerDay_def)
  show ?thesis
    unfolding c getHeatmapColor_def Let_def
    using d [of 7] d [of 30] d [of 90] d [of 91] days_since_never [of st cid now]
    by auto
qed

lemma inspected_latest:
  "latest_completed_inspection inspected_state ''rack-1-beam-0-1-front'' = Some 0"
  by (simp add: latest_completed_inspection_def inspected_state_def records_of_def
      completed_inspections_def Let_def)

lemma initial_latest:
  "latest_completed_inspection (initial_state \<lparr> viewMode := Heatmap \<rparr>) ''rack-1-beam-0-1-front'' = None"
  by (simp add: latest_completed_inspection_def initial_state_def records_of_def
      completed_inspections_def Let_def)

theorem heatmap_tiers_witness:
  "viewMode inspected_state = Heatmap
   \<and> latest_completed_inspection inspected_state ''rack-1-beam-0-1-front'' = Some 0
   \<and> color (createMaterial inspected_state (7 * msPerDay) ''#ff6b00'' ''rack-1-beam-0-1-front'' False True)
       = Css ''#10b981''
   \<and> color (createMaterial inspected_state (30 * msPerDay) ''#ff6b00'' ''rack-1-beam-0-1-front'' False True)
       = Css ''#f59e0b''
   \<and> color (createMaterial inspected_state (90 * msPerDay) ''#ff6b00'' ''rack-1-beam-0-1-front'' False True)
       = Css ''#f97316''
   \<and> color (createMaterial inspected_state (91 * msPerDay) ''#ff6b00'' ''rack-1-beam-0-1-front'' False True)
       = Css ''#ef4444''
   \<and> viewMode (initial_state \<lparr> viewMode := Heatmap \<rparr>) = Heatmap
   \<and> latest_completed_inspection (initial_state \<lparr> viewMode := Heatmap \<rparr>) ''rack-1-beam-0-1-front'' = None
   \<and> color (createMaterial (initial_state \<lparr> viewMode := Heatmap \<rparr>) 0 ''#ff6b00'' ''rack-1-beam-0-1-front'' False False)
       = Css ''#ef4444''"
proof -
  have v: "viewMode inspected_state = Heatmap" by (simp add: inspected_state_def)
  have v0: "viewMode (initial_state \<lparr> viewMode := Heatmap \<rparr>) = Heatmap" by simp
  note l = inspected_latest
  show ?thesis
    using heatmap_tiers [OF v, of "''rack-1-beam-0-1-front''" 0 "7 * msPerDay" "''#ff6b00''" False True]
      heatmap_tiers [OF v, of "''rack-1-beam-0-1-front''" 0 "30 * msPerDay" "''#ff6b00''" False True]
      heatmap_tiers [OF v, of "''rack-1-beam-0-1-front''" 0 "90 * msPerDay" "''#ff6b00''" False True]
      heatmap_tiers [OF v, of "''rack-1-beam-0-1-front''" 0 "91 * msPerDay" "''#ff6b00''" False True]
      heatmap_tiers [OF v0, of "''rack-1-beam-0-1-front''" 0 0 "''#ff6b00''" False False]
      v l initial_latest
    by simp
qed

section \<open>Precedence of the view modes\<close>

lemma getDaysSinceInspection_health [simp]:
  "getDaysSinceInspection (st \<lparr> componentHealth := h \<rparr>) now cid = getDaysSinceInspection st now cid"
  by (simp add: getDaysSinceInspection_def)

lemma getHeatmapColor_health [simp]:
  "getHeatmapColor (st \<lparr> componentHealth := h \<rparr>) now cid = getHeatmapColor st now cid"
  by (simp add: getHeatmapColor_def)

lemma createMaterial_health_irrelevant:
  "viewMode st \<noteq> Health \<Longrightarrow>
     createMaterial (st \<lparr> componentHealth := h \<rparr>) now base cid sel hr
       = createMaterial st now base cid sel hr"
  by (simp add: createMaterial_def)

lemma deckColor_health_irrelevant:
  "viewMode st \<noteq> Health \<Longrightarrow>
     deckColor (st \<lparr> componentHealth := h \<rparr>) now base cid sel hr = deckColor st now base cid sel hr"
  by (simp add: deckColor_def)

text \<open>
  Claim C4. With a health entry recorded for a component, the material in heatmap view has
  the heatmap colour, on the deck's path as well; outside health view the material does not
  depend on the health entries at all; the health colour is taken in health view.
\<close>

theorem heatmap_precedes_health:
  "(viewMode st = Heatmap \<longrightarrow>
      color (createMaterial st now base cid sel hr) = Css (getHeatmapColor st now cid)
      \<and> emissive (createMaterial st now base cid sel hr) = Css (getHeatmapColor st now cid)
      \<and> deckColor st now base cid sel hr = Css (getHeatmapColor st now cid))
   \<and> (viewMode st \<noteq> Health \<longrightarrow>
      createMaterial (st \<lparr> componentHealth := h \<rparr>) now base cid sel hr
        = createMaterial st now base cid sel hr
      \<and> deckColor (st \<lparr> componentHealth := h \<rparr>) now base cid sel hr
        = deckColor st now base cid sel hr)
   \<and> (viewMode st = Health \<and> truthy_str (componentHealth st cid) \<longrightarrow>
      color (createMaterial st now base cid sel hr) = Css (getHealthColor st cid)
      \<and> deckColor st now base cid sel hr = Css (getHealthColor st cid))"
  by (simp add: createMaterial_health_irrelevant deckColor_health_irrelevant)
     (simp add: createMaterial_def deckColor_def)

lemma graded_days:
  "getDaysSinceInspection graded_state (7 * msPerDay) ''rack-1-beam-0-1-front'' = 7"
  by (simp add: graded_state_def inspected_state_def getDaysSinceInspection_def
      completed_inspections_def msPerDay_def Let_def)

theorem heatmap_precedes_health_witness:
  "viewMode graded_state = Heatmap
   \<and> componentHealth graded_state ''rack-1-beam-0-1-front'' = Some ''critical''
   \<and> getHealthColor graded_state ''rack-1-beam-0-1-front'' = ''#ef4444''
   \<and> color (createMaterial graded_state (7 * msPerDay) ''#ff6b00'' ''rack-1-beam-0-1-front'' False True)
       = Css ''#10b981''
   \<and> viewMode graded_state \<noteq> Health
   \<and> createMaterial (graded_state \<lparr> componentHealth := Map.empty \<rparr>) (7 * msPerDay) ''#ff6b00''
         ''rack-1-beam-0-1-front'' False True
       = createMaterial graded_state (7 * msPerDay) ''#ff6b00'' ''rack-1-beam-0-1-front'' False True
   \<and> viewMode (graded_state \<lparr> viewMode := Health \<rparr>) = Health
   \<and> truthy_str (componentHealth (graded_state \<lparr> viewMode := Health \<rparr>) ''rack-1-beam-0-1-front'')
   \<and> color (createMaterial (graded_state \<lparr> viewMode := Health \<rparr>) (7 * msPerDay) ''#ff6b00''
         ''rack-1-beam-0-1-front'' False True)
       = Css ''#ef4444''"
proof -
  have v: "viewMode graded_state = Heatmap"
    by (simp add: graded_state_def inspected_state_def)
  have h: "componentHealth graded_state ''rack-1-beam-0-1-front'' = Some ''critical''"
    by (simp add: graded_state_def)
  have hc: "getHealthColor graded_state ''rack-1-beam-0-1-front'' = ''#ef4444''"
    by (simp add: getHealthColor_def h healthStatuses_def)
  have hc': "getHealthColor (graded_state \<lparr> viewMode := Health \<rparr>) ''rack-1-beam-0-1-front'' = ''#ef4444''"
    by (simp add: getHealthColor_def h healthStatuses_def)
  have g: "getHeatmapColor graded_state (7 * msPerDay) ''rack-1-beam-0-1-front'' = ''#10b981''"
    by (simp add: getHeatmapColor_def graded_days)
  show ?thesis
    using heatmap_precedes_health [of graded_state "7 * msPerDay" "''#ff6b00''"
        "''rack-1-beam-0-1-front''" False True Map.empty]
      heatmap_precedes_health [of "graded_state \<lparr> viewMode := Health \<rparr>" "7 * msPerDay"
        "''#ff6b00''" "''rack-1-beam-0-1-front''" False True Map.empty]
      v h hc hc' g
    by (simp add: truthy_str_def)
qed

section \<open>Picking\<close>

lemma click_loop_pass:
  "\<not> addressable h \<Longrightarrow> click_loop st (h # rest) = click_loop st rest"
  by (auto simp: addressable_def is_marker_hit_def is_component_hit_def
        is_indicator_hit_def Let_def)

lemma click_loop_skip:
  "\<forall>h \<in> set hs. \<not> addressable h \<Longrightarrow> click_loop st (hs @ rest) = click_loop st rest"
  by (induction hs) (simp_all add: click_loop_pass del: click_loop.simps)

lemma click_loop_first:
  "addressable h \<Longrightarrow> click_loop st (h # rest) = click_loop st [h]"
  by (auto simp: addressable_def is_marker_hit_def is_component_hit_def
        is_indicator_hit_def Let_def split: option.splits)

text \<open>
  Claim C8. A click none of whose intersections is addressable (a rack marker, a mesh
  with a component id that is not a decoration, an indicator with a parent) changes
  nothing: the state after it, selected component and selected rack included, is the state
  before it.
\<close>

theorem click_without_addressable_hit:
  "\<forall>h \<in> set hits. \<not> addressable h \<Longrightarrow> handleClick refs_ok st hits = st"
  using click_loop_skip [of hits st "[]"] by (simp add: handleClick_def)

theorem click_without_addressable_hit_witness:
  "\<not> addressable \<lparr> distance = 1, object = load_box_obj 0 \<rparr>
   \<and> handleClick True initial_state [\<lparr> distance = 1, object = load_box_obj 0 \<rparr>] = initial_state"
proof -
  have n: "\<forall>h \<in> set [\<lparr> distance = 1, object = load_box_obj 0 \<rparr>]. \<not> addressable h"
    by (simp add: addressable_def is_marker_hit_def is_component_hit_def is_indicator_hit_def
        load_box_obj_def no_userData_def truthy_bool_def truthy_str_def)
  show ?thesis
    using click_without_addressable_hit [OF n, of True initial_state] n by simp
qed

lemma componentId_of_nonempty: "componentId_of rid k \<noteq> []"
  by (cases k) simp_all

lemma long_wire_component:
  "ud_componentId (userData (long_wire_obj st now r bay level w))
     = Some (componentId_of (rack_id r) (DeckKey bay level))
   \<and> ud_isDecoration (userData (long_wire_obj st now r bay level w)) \<noteq> Some True
   \<and> ud_rackId (userData (long_wire_obj st now r bay level w)) = Some (rack_id r)"
  by (simp add: long_wire_obj_def Let_def no_userData_def)

lemma deck_part_component:
  "ud_componentId (userData (deck_part_obj st now r bay level))
     = Some (componentId_of (rack_id r) (DeckKey bay level))
   \<and> ud_isDecoration (userData (deck_part_obj st now r bay level)) \<noteq> Some True
   \<and> ud_rackId (userData (deck_part_obj st now r bay level)) = Some (rack_id r)"
  by (simp add: deck_part_obj_def Let_def no_userData_def)

lemma deck_objs_component:
  assumes "ob \<in> set (deck_objs st now r bay level)"
  shows "ud_componentId (userData ob) = Some (componentId_of (rack_id r) (DeckKey bay level))
         \<and> ud_isDecoration (userData ob) \<noteq> Some True"
  using assms long_wire_component [of st now r bay level] deck_part_component [of st now r bay level]
  by (auto simp: deck_objs_def)

lemma deck_objs_hit:
  assumes "ob \<in> set (deck_objs st now r bay level)"
  shows "is_component_hit \<lparr> distance = d, object = ob \<rparr>"
  using deck_objs_component [OF assms] componentId_of_nonempty
  by (simp add: is_component_hit_def truthy_str_def truthy_bool_def)

lemma click_single:
  "selectedComponent (click_loop st [h]) =
     (if is_marker_hit h then selectedComponent st
      else if is_component_hit h then ud_componentId (userData (object h))
      else if is_indicator_hit h then ud_parentId (userData (object h))
      else selectedComponent st)"
  by (auto simp: is_marker_hit_def is_component_hit_def is_indicator_hit_def Let_def
      truthy_str_def split: option.splits)

lemma nearest_addressable:
  assumes "sorted (map distance hits)" and "\<exists>h \<in> set hits. addressable h"
  shows "\<exists>pre h post. hits = pre @ h # post \<and> addressable h
           \<and> (\<forall>p \<in> set pre. \<not> addressable p)
           \<and> (\<forall>h' \<in> set hits. addressable h' \<longrightarrow> distance h \<le> distance h')"
proof -
  from assms(2) obtain pre h post where
    sp: "hits = pre @ h # post" "addressable h" "\<forall>p \<in> set pre. \<not> addressable p"
    using split_list_first_prop [of hits addressable] by blast
  have "sorted (map distance (h # post))"
    using assms(1) unfolding sp(1) by (simp add: sorted_append)
  then have "\<forall>y \<in> set post. distance h \<le> distance y" by simp
  then have "\<forall>h' \<in> set hits. addressable h' \<longrightarrow> distance h \<le> distance h'"
    using sp by auto
  with sp show ?thesis by blast
qed

text \<open>
  Claim C5, as amended. A click with an addressable intersection resolves to the nearest
  addressable one: meshes whose \<^verbatim>\<open>isDecoration\<close> is true (the load boxes) are passed
  over, a mesh with a component id gives that id, an indicator gives its parent's id.
  Every wire and frame part of a wire deck carries the deck's id with
  \<^verbatim>\<open>isDecoration: false\<close>, so a click on any of them is a click on the deck.
\<close>

theorem click_selects_nearest_addressable:
  assumes "sorted (map distance hits)" and "refs_ok" and "\<not> isDragging st"
    and "\<exists>h \<in> set hits. addressable h"
  shows "(\<exists>h \<in> set hits. addressable h
            \<and> (\<forall>h' \<in> set hits. addressable h' \<longrightarrow> distance h \<le> distance h')
            \<and> (is_marker_hit h \<longrightarrow>
                 selectedComponent (handleClick refs_ok st hits) = selectedComponent st)
            \<and> (\<not> is_marker_hit h \<and> is_component_hit h \<longrightarrow>
                 selectedComponent (handleClick refs_ok st hits)
                   = ud_componentId (userData (object h))
                 \<and> ud_isDecoration (userData (object h)) \<noteq> Some True)
            \<and> (\<not> is_marker_hit h \<and> \<not> is_component_hit h \<longrightarrow>
                 selectedComponent (handleClick refs_ok st hits)
                   = ud_parentId (userData (object h))
                 \<and> ud_isIndicator (userData (object h)) = Some True))
         \<and> (\<forall>ob \<in> set (deck_objs st now r bay level).
               is_component_hit \<lparr> distance = d, object = ob \<rparr>
               \<and> selectedComponent (handleClick refs_ok st [\<lparr> distance = d, object = ob \<rparr>])
                   = Some (componentId_of (rack_id r) (DeckKey bay level)))
         \<and> \<not> addressable \<lparr> distance = d, object = load_box_obj hue \<rparr>"
proof -
  obtain pre h post where sp: "hits = pre @ h # post" "addressable h"
      "\<forall>p \<in> set pre. \<not> addressable p"
      "\<forall>h' \<in> set hits. addressable h' \<longrightarrow> distance h \<le> distance h'"
    using nearest_addressable [OF assms(1,4)] by blast
  have run: "handleClick refs_ok st hits = click_loop st [h]"
    using assms(2,3) click_loop_skip [OF sp(3), of st "h # post"] click_loop_first [OF sp(2), of st post]
    by (simp add: handleClick_def sp(1))
  have first: "addressable h
            \<and> (\<forall>h' \<in> set hits. addressable h' \<longrightarrow> distance h \<le> distance h')
            \<and> (is_marker_hit h \<longrightarrow>
                 selectedComponent (handleClick refs_ok st hits) = selectedComponent st)
            \<and> (\<not> is_marker_hit h \<and> is_component_hit h \<longrightarrow>
                 selectedComponent (handleClick refs_ok st hits)
                   = ud_componentId (userData (object h))
                 \<and> ud_isDecoration (userData (object h)) \<noteq> Some True)
            \<and> (\<not> is_marker_hit h \<and> \<not> is_component_hit h \<longrightarrow>
                 selectedComponent (handleClick refs_ok st hits)
                   = ud_parentId (userData (object h))
                 \<and> ud_isIndicator (userData (object h)) = Some True)"
    using sp(2,4) unfolding run click_single
    by (auto simp: addressable_def is_component_hit_def is_indicator_hit_def truthy_bool_def)
  have hin: "h \<in> set hits" using sp(1) by simp
  have deck: "\<forall>ob \<in> set (deck_objs st now r bay level).
               is_component_hit \<lparr> distance = d, object = ob \<rparr>
               \<and> selectedComponent (handleClick refs_ok st [\<lparr> distance = d, object = ob \<rparr>])
                   = Some (componentId_of (rack_id r) (DeckKey bay level))"
  proof
    fix ob assume ob: "ob \<in> set (deck_objs st now r bay level)"
    have c: "is_component_hit \<lparr> distance = d, object = ob \<rparr>"
      by (rule deck_objs_hit [OF ob])
    have m: "\<not> is_marker_hit \<lparr> distance = d, object = ob \<rparr>"
      using ob long_wire_component [of st now r bay level] deck_part_component [of st now r bay level]
      by (auto simp: deck_objs_def is_marker_hit_def truthy_bool_def long_wire_obj_def
          deck_part_obj_def Let_def no_userData_def)
    show "is_component_hit \<lparr> distance = d, object = ob \<rparr>
          \<and> selectedComponent (handleClick refs_ok st [\<lparr> distance = d, object = ob \<rparr>])
              = Some (componentId_of (rack_id r) (DeckKey bay level))"
      using c m assms(2,3) deck_objs_component [OF ob]
      by (simp add: handleClick_def click_single del: click_loop.simps)
  qed
  have box: "\<not> addressable \<lparr> distance = d, object = load_box_obj hue \<rparr>"
    by (simp add: addressable_def is_marker_hit_def is_component_hit_def is_indicator_hit_def
        load_box_obj_def no_userData_def truthy_bool_def truthy_str_def)
  from first hin deck box show ?thesis by blast
qed

lemma thread_mem:
  "x \<in> set xs \<Longrightarrow> \<exists>j. set (fst (f x j)) \<subseteq> set (fst (thread f xs i))"
proof (induction xs arbitrary: i)
  case Nil
  then show ?case by simp
next
  case (Cons y ys)
  obtain os j where fy: "f y i = (os, j)" by (cases "f y i")
  obtain zs k where th: "thread f ys j = (zs, k)" by (cases "thread f ys j")
  show ?case
  proof (cases "x = y")
    case True
    have "set (fst (f x i)) \<subseteq> set (fst (thread f (y # ys) i))"
      using True fy th by simp
    then show ?thesis by blast
  next
    case False
    with Cons.prems have "x \<in> set ys" by simp
    from Cons.IH [OF this, of j] obtain j' where "set (fst (f x j')) \<subseteq> set (fst (thread f ys j))"
      by blast
    then have "set (fst (f x j')) \<subseteq> set (fst (thread f (y # ys) i))"
      using fy th by auto
    then show ?thesis by blast
  qed
qed

lemma cell_in_scene:
  assumes "r \<in> set (racks st)" and "int bay < bays (rack_config r)"
    and "1 \<le> level" and "int level \<le> levels (rack_config r)"
    and cell: "\<And>j. ob \<in> set (fst (cell_objs st now r draws bay level j))"
  shows "ob \<in> set (scene_objects (build_scene st now draws))"
proof -
  have lv: "level \<in> set [1..<nat (levels (rack_config r)) + 1]"
    using assms(3,4) by auto
  have bv: "bay \<in> set [0..<nat (bays (rack_config r))]"
    using assms(2) by auto
  have bayo: "\<And>i. ob \<in> set (fst (bay_objs st now r draws bay i))"
    using thread_mem [OF lv, of "cell_objs st now r draws bay"] cell
    unfolding bay_objs_def by blast
  have racko: "\<And>i. ob \<in> set (fst (rack_objs st now draws r i))"
  proof -
    fix i
    obtain j where "set (fst (bay_objs st now r draws bay j))
        \<subseteq> set (fst (thread (bay_objs st now r draws) [0..<nat (bays (rack_config r))] i))"
      using thread_mem [OF bv, of "bay_objs st now r draws" i] by blast
    with bayo [of j] show "ob \<in> set (fst (rack_objs st now draws r i))"
      by (auto simp: rack_objs_def split: prod.splits)
  qed
  have grp: "\<And>i. \<exists>g \<in> set (fst (build_rack st now draws r i)). ob \<in> set (children g)"
    using racko by (simp add: build_rack_def split: prod.splits) (metis fst_conv)
  obtain j where sub: "set (fst (build_rack st now draws r j))
      \<subseteq> set (fst (thread (build_rack st now draws) (racks st) 0))"
    using thread_mem [OF assms(1), of "build_rack st now draws" 0] by blast
  from grp [of j] sub show ?thesis
    by (auto simp: scene_objects_def build_scene_def)
qed

lemma fixed_cell_in_scene:
  assumes "r \<in> set (racks st)" and "int bay < bays (rack_config r)"
    and "1 \<le> level" and "int level \<le> levels (rack_config r)"
    and "ob \<in> set (fixed_cell_objs st now r bay level)"
  shows "ob \<in> set (scene_objects (build_scene st now draws))"
  by (rule cell_in_scene [OF assms(1-4)])
     (simp add: assms(5) cell_objs_def split: prod.splits)

theorem click_selects_nearest_addressable_witness:
  "sorted (map distance strand_hits) \<and> \<not> isDragging initial_state
   \<and> addressable (strand_hits ! 1) \<and> \<not> addressable (strand_hits ! 0)
   \<and> selectedComponent (handleClick True initial_state strand_hits) = Some ''rack-1-deck-0-1''
   \<and> selectedComponent (handleClick True initial_state (tl strand_hits)) = Some ''rack-1-deck-0-1''
   \<and> deck_part_obj initial_state 0 rack1 0 1 \<in> set (deck_objs initial_state 0 rack1 0 1)
   \<and> selectedComponent (handleClick True initial_state
         [\<lparr> distance = 2, object = deck_part_obj initial_state 0 rack1 0 1 \<rparr>])
       = Some ''rack-1-deck-0-1''"
proof -
  have s: "sorted (map distance strand_hits)" by (simp add: strand_hits_def)
  have d: "\<not> isDragging initial_state" by (simp add: initial_state_def)
  have w: "long_wire_obj initial_state 0 rack1 0 1 1 \<in> set (deck_objs initial_state 0 rack1 0 1)"
    by (simp add: deck_objs_def numLongWires_def)
  have a: "addressable (strand_hits ! 1)"
    using deck_objs_hit [OF w, of 2] by (simp add: strand_hits_def addressable_def)
  then have e: "\<exists>h \<in> set strand_hits. addressable h"
    by (auto simp: strand_hits_def)
  have b: "\<not> addressable (strand_hits ! 0)"
    by (simp add: strand_hits_def addressable_def is_marker_hit_def is_component_hit_def
        is_indicator_hit_def load_box_obj_def no_userData_def truthy_bool_def truthy_str_def)
  have id: "componentId_of (rack_id rack1) (DeckKey 0 1) = ''rack-1-deck-0-1''"
    by (simp add: rack1_def createNewRack_def) code_simp
  have run: "handleClick True initial_state strand_hits = handleClick True initial_state (tl strand_hits)"
    using b click_loop_pass [of "strand_hits ! 0" initial_state "tl strand_hits"]
    by (simp add: handleClick_def strand_hits_def del: click_loop.simps)
  have t: "tl strand_hits = \<lparr> distance = 2, object = long_wire_obj initial_state 0 rack1 0 1 1 \<rparr>
      # [\<lparr> distance = 3, object = beam_obj initial_state 0 rack1 0 1 Back \<rparr>]"
    by (simp add: strand_hits_def)
  have one: "handleClick True initial_state (tl strand_hits)
      = handleClick True initial_state [\<lparr> distance = 2, object = long_wire_obj initial_state 0 rack1 0 1 1 \<rparr>]"
    using a click_loop_first [of "strand_hits ! 1" initial_state]
    by (simp add: handleClick_def strand_hits_def del: click_loop.simps)
  from click_selects_nearest_addressable [OF s _ d e, of True 0 rack1 0 1 2 0]
  have deck: "\<forall>ob \<in> set (deck_objs initial_state 0 rack1 0 1).
         is_component_hit \<lparr> distance = 2, object = ob \<rparr>
         \<and> selectedComponent (handleClick True initial_state [\<lparr> distance = 2, object = ob \<rparr>])
           = Some (componentId_of (rack_id rack1) (DeckKey 0 1))"
    by simp
  with w have lw: "selectedComponent (handleClick True initial_state
        [\<lparr> distance = 2, object = long_wire_obj initial_state 0 rack1 0 1 1 \<rparr>])
      = Some ''rack-1-deck-0-1''"
    using id by auto
  have p: "deck_part_obj initial_state 0 rack1 0 1 \<in> set (deck_objs initial_state 0 rack1 0 1)"
    by (simp add: deck_objs_def)
  with deck have dp: "selectedComponent (handleClick True initial_state
        [\<lparr> distance = 2, object = deck_part_obj initial_state 0 rack1 0 1 \<rparr>])
      = Some ''rack-1-deck-0-1''"
    using id by auto
  from s d a b run one lw p dp show ?thesis by simp
qed

text \<open>
  The claim C5 as stated fails: a wire of the deck that is not the registered mesh is in the
  scene the build makes for the initial state, the click handler does not pass over it, and
  a click that meets it before a beam selects the deck, not the beam.
\<close>

theorem wire_strand_click_counterexample:
  "long_wire_obj initial_state 0 rack1 0 1 1
     \<in> set (scene_objects (build_scene initial_state 0 (\<lambda>_. 0)))
   \<and> mapKey (long_wire_obj initial_state 0 rack1 0 1 1) = None
   \<and> ud_isDecoration (userData (long_wire_obj initial_state 0 rack1 0 1 1)) = Some False
   \<and> selectedComponent (handleClick True initial_state
        [\<lparr> distance = 2, object = long_wire_obj initial_state 0 rack1 0 1 1 \<rparr>,
         \<lparr> distance = 3, object = beam_obj initial_state 0 rack1 0 1 Back \<rparr>])
       = Some ''rack-1-deck-0-1''
   \<and> selectedComponent (handleClick True initial_state
        [\<lparr> distance = 3, object = beam_obj initial_state 0 rack1 0 1 Back \<rparr>])
       = Some ''rack-1-beam-0-1-back''"
proof -
  have r: "rack1 \<in> set (racks initial_state)"
    by (simp add: initial_state_def rack1_def)
  have w: "long_wire_obj initial_state 0 rack1 0 1 1 \<in> set (fixed_cell_objs initial_state 0 rack1 0 1)"
    by (simp add: fixed_cell_objs_def deck_objs_def numLongWires_def rack1_def createNewRack_def
        defaultConfig_def)
  have m: "long_wire_obj initial_state 0 rack1 0 1 1
     \<in> set (scene_objects (build_scene initial_state 0 (\<lambda>_. 0)))"
    by (rule fixed_cell_in_scene [OF r _ _ _ w])
       (simp_all add: rack1_def createNewRack_def defaultConfig_def)
  have k: "mapKey (long_wire_obj initial_state 0 rack1 0 1 1) = None"
    "ud_isDecoration (userData (long_wire_obj initial_state 0 rack1 0 1 1)) = Some False"
    by (simp_all add: long_wire_obj_def Let_def no_userData_def)
  have id: "componentId_of (rack_id rack1) (DeckKey 0 1) = ''rack-1-deck-0-1''"
    by (simp add: rack1_def createNewRack_def) code_simp
  have id2: "componentId_of (rack_id rack1) (BeamKey 0 1 Back) = ''rack-1-beam-0-1-back''"
    by (simp add: rack1_def createNewRack_def) code_simp
  have c1: "selectedComponent (handleClick True initial_state
        [\<lparr> distance = 2, object = long_wire_obj initial_state 0 rack1 0 1 1 \<rparr>,
         \<lparr> distance = 3, object = beam_obj initial_state 0 rack1 0 1 Back \<rparr>])
       = Some ''rack-1-deck-0-1''"
    using id componentId_of_nonempty [of "rack_id rack1" "DeckKey 0 1"]
    by (simp add: handleClick_def initial_state_def long_wire_obj_def Let_def no_userData_def
        truthy_bool_def truthy_str_def)
  have c2: "selectedComponent (handleClick True initial_state
        [\<lparr> distance = 3, object = beam_obj initial_state 0 rack1 0 1 Back \<rparr>])
       = Some ''rack-1-beam-0-1-back''"
    using id2 componentId_of_nonempty [of "rack_id rack1" "BeamKey 0 1 Back"]
    by (simp add: handleClick_def click_single is_marker_hit_def is_component_hit_def
        initial_state_def beam_obj_def Let_def no_userData_def truthy_bool_def truthy_str_def
        del: click_loop.simps)
  from m k c1 c2 show ?thesis by simp
qed

section \<open>Rack management\<close>

lemma deleteRack_last_rack:
  "length (racks st) \<le> 1 \<Longrightarrow> deleteRack st rackId = Inr st"
  by (simp add: deleteRack_def)


lemma show_nat_T: "show_nat 1700000000000 = ''1700000000000''"
  by (simp add: show_nat.simps digit_char_def)



lemma same_ms_racks:
  "map rack_id (racks (run_rack_ops initial_state same_ms_ops))
     = [''rack-1700000000000'', ''rack-1700000000000'']
   \<and> selectedRackId (run_rack_ops initial_state same_ms_ops) = ''rack-1700000000000''"
  by (simp add: run_rack_ops_def same_ms_ops_def addNewRack_def duplicateRack_def deleteRack_def
      Let_def initial_state_def show_nat_T createNewRack_def)

text \<open>
  Claim C7 fails on the code. Two racks made while \<^verbatim>\<open>Date.now()\<close> reads the same
  millisecond have the same id; once the first rack is deleted, deleting that id removes
  both, the collection is empty, and the handler throws at \<^verbatim>\<open>newRacks[0].id\<close>.
\<close>

theorem rack_collection_emptied:
  "racks (run_rack_ops initial_state (same_ms_ops @ [DeleteRack ''rack-1700000000000''])) = []
   \<and> (\<exists>s. deleteRack (run_rack_ops initial_state same_ms_ops) ''rack-1700000000000''
            = Inl (TypeError, s) \<and> racks s = [])"
proof -
  let ?st = "run_rack_ops initial_state same_ms_ops"
  have ids: "map rack_id (racks ?st) = [''rack-1700000000000'', ''rack-1700000000000'']"
    and sel: "selectedRackId ?st = ''rack-1700000000000''"
    using same_ms_racks by simp_all
  have len: "length (racks ?st) = 2"
    using arg_cong [OF ids, of length] by simp
  have "\<forall>i \<in> set (map rack_id (racks ?st)). i = ''rack-1700000000000''"
    unfolding ids by simp
  then have f: "filter (\<lambda>q. rack_id q \<noteq> ''rack-1700000000000'') (racks ?st) = []"
    by (simp add: filter_empty_conv)
  have d: "deleteRack ?st ''rack-1700000000000'' = Inl (TypeError, ?st \<lparr> racks := [] \<rparr>)"
    unfolding deleteRack_def Let_def f using len sel by simp
  have "run_rack_ops initial_state (same_ms_ops @ [DeleteRack ''rack-1700000000000''])
      = state_of (deleteRack ?st ''rack-1700000000000'')"
    by (simp add: run_rack_ops_def)
  with d show ?thesis by simp
qed

text \<open>What the guard of \<^verbatim>\<open>deleteRack\<close> does secure: with pairwise distinct ids the
  collection stays non-empty.\<close>

lemma deleteRack_nonempty:
  assumes "racks st \<noteq> []" and "distinct (map rack_id (racks st))"
  shows "racks (state_of (deleteRack st rackId)) \<noteq> []
         \<and> distinct (map rack_id (racks (state_of (deleteRack st rackId))))"
proof (cases "length (racks st) \<le> 1")
  case True
  then show ?thesis using assms by (simp add: deleteRack_def)
next
  case False
  let ?new = "filter (\<lambda>q. rack_id q \<noteq> rackId) (racks st)"
  from False obtain a b rest where abr: "racks st = a # b # rest"
    by (cases "racks st"; cases "tl (racks st)") auto
  with assms(2) have "rack_id a \<noteq> rack_id b" by simp
  then have "rack_id a \<noteq> rackId \<or> rack_id b \<noteq> rackId" by auto
  then have ne: "?new \<noteq> []"
    unfolding abr by auto
  have dn: "distinct (map rack_id ?new)"
    using assms(2) by (simp add: distinct_map_filter)
  from ne obtain z zs where z: "?new = z # zs" by (cases ?new) auto
  have zz: "rack_id z # map rack_id zs = map rack_id ?new" by (simp add: z)
  show ?thesis
    using False dn unfolding deleteRack_def Let_def z zz [symmetric]
    by (simp add: z)
qed

lemma rack_step_nonempty:
  assumes "racks st \<noteq> []" and "distinct (map rack_id (racks st))" and "fresh_id st op"
  shows "racks (rack_step st op) \<noteq> [] \<and> distinct (map rack_id (racks (rack_step st op)))"
proof (cases op)
  case (AddNewRack now)
  with assms show ?thesis
    by (simp add: addNewRack_def Let_def fresh_id_def createNewRack_def)
next
  case (DuplicateRack rackId now)
  with assms show ?thesis
    by (cases "find (\<lambda>r. rack_id r = rackId) (racks st)")
       (simp_all add: duplicateRack_def Let_def fresh_id_def)
next
  case (DeleteRack rackId)
  with deleteRack_nonempty [OF assms(1,2), of rackId] show ?thesis by simp
qed

lemma fresh_run_nonempty:
  "racks st \<noteq> [] \<Longrightarrow> distinct (map rack_id (racks st)) \<Longrightarrow> fresh_run st ops
     \<Longrightarrow> racks (run_rack_ops st ops) \<noteq> []"
proof (induction ops arbitrary: st)
  case Nil
  then show ?case by (simp add: run_rack_ops_def)
next
  case (Cons op ops)
  from Cons.prems have f: "fresh_id st op" "fresh_run (rack_step st op) ops" by simp_all
  from rack_step_nonempty [OF Cons.prems(1,2) f(1)]
  have "racks (run_rack_ops (rack_step st op) ops) \<noteq> []"
    using Cons.IH [of "rack_step st op"] f(2) by simp
  then show ?case by (simp add: run_rack_ops_def)
qed

section \<open>Maintenance records\<close>

























section \<open>The identifiers a build registers\<close>

lemma registered_ids_where: "registered_ids os = ids_where (\<lambda>_. True) os"
  by (simp add: registered_ids_def ids_where_def)

lemma ids_of_type_where: "ids_of_type t os = ids_where (\<lambda>ud. ud_type ud = Some t) os"
  by (simp add: ids_of_type_def ids_where_def)

lemma ids_where_Nil [simp]: "ids_where P [] = []"
  by (simp add: ids_where_def map_filter_simps)

lemma ids_where_Cons:
  "ids_where P (ob # os) =
     (case (if P (userData ob) then mapKey ob else None) of
        None \<Rightarrow> ids_where P os | Some c \<Rightarrow> c # ids_where P os)"
  by (simp add: ids_where_def map_filter_simps split: option.split)

lemma ids_where_append [simp]: "ids_where P (xs @ ys) = ids_where P xs @ ids_where P ys"
  by (simp add: ids_where_def map_filter_def)

lemma ids_where_concat: "ids_where P (concat xss) = concat (map (ids_where P) xss)"
  by (induction xss) simp_all

lemma ids_where_unregistered:
  "\<forall>ob \<in> set os. mapKey ob = None \<Longrightarrow> ids_where P os = []"
  by (induction os) (simp_all add: ids_where_Cons)

lemma thread_ids_indep:
  assumes "\<And>x i. x \<in> set xs \<Longrightarrow> ids_where P (fst (f x i)) = h x"
  shows "ids_where P (fst (thread f xs i)) = concat (map h xs)"
  using assms
proof (induction xs arbitrary: i)
  case Nil
  then show ?case by simp
next
  case (Cons y ys)
  obtain os j where fy: "f y i = (os, j)" by (cases "f y i")
  obtain zs k where th: "thread f ys j = (zs, k)" by (cases "thread f ys j")
  have a: "ids_where P os = h y" using Cons.prems [of y i] fy by simp
  have b: "ids_where P zs = concat (map h ys)"
    using Cons.IH [of j] Cons.prems th by simp
  show ?case using fy th a b by simp
qed

lemma thread_ids_cong:
  assumes "\<And>x i j. x \<in> set xs \<Longrightarrow> ids_where P (fst (f x i)) = ids_where P (fst (g x j))"
  shows "ids_where P (fst (thread f xs i)) = ids_where P (fst (thread g xs j))"
  using assms
proof (induction xs arbitrary: i j)
  case Nil
  then show ?case by simp
next
  case (Cons y ys)
  obtain os i' where fy: "f y i = (os, i')" by (cases "f y i")
  obtain zs i'' where tf: "thread f ys i' = (zs, i'')" by (cases "thread f ys i'")
  obtain os2 j' where gy: "g y j = (os2, j')" by (cases "g y j")
  obtain zs2 j'' where tg: "thread g ys j' = (zs2, j'')" by (cases "thread g ys j'")
  have a: "ids_where P os = ids_where P os2" using Cons.prems [of y i j] fy gy by simp
  have b: "ids_where P zs = ids_where P zs2"
    using Cons.IH [of i' j'] Cons.prems tf tg by simp
  show ?case using fy tf gy tg a b by simp
qed

subsection \<open>What each part of the build registers\<close>

lemma indicator_objs_ids [simp]: "ids_where P (indicator_objs st cid) = []"
  by (simp add: indicator_objs_def indicator_obj_def ids_where_Cons)

lemma upright_type [simp]: "ud_type (userData (upright_obj st now r bay s)) = Some ''upright''"
  and upright_key [simp]: "mapKey (upright_obj st now r bay s)
         = Some (componentId_of (rack_id r) (UprightKey bay s))"
  by (simp_all add: upright_obj_def Let_def)

lemma brace_type [simp]: "ud_type (userData (brace_obj st now r bay level)) = Some ''brace''"
  and brace_key [simp]: "mapKey (brace_obj st now r bay level)
         = Some (componentId_of (rack_id r) (BraceKey bay level))"
  by (simp_all add: brace_obj_def Let_def)

lemma connector_type [simp]:
    "ud_type (userData (connector_obj st now r bay level)) = Some ''connector''"
  and connector_key [simp]: "mapKey (connector_obj st now r bay level)
         = Some (componentId_of (rack_id r) (ConnectorKey bay level))"
  by (simp_all add: connector_obj_def Let_def)

lemma beam_type [simp]: "ud_type (userData (beam_obj st now r bay level s)) = Some ''beam''"
  and beam_key [simp]: "mapKey (beam_obj st now r bay level s)
         = Some (componentId_of (rack_id r) (BeamKey bay level s))"
  by (simp_all add: beam_obj_def Let_def)

lemma crossbar_type [simp]:
    "ud_type (userData (crossbar_obj st now r bay level i)) = Some ''crossbar''"
  and crossbar_key [simp]: "mapKey (crossbar_obj st now r bay level i)
         = Some (componentId_of (rack_id r) (CrossbarKey bay level i))"
  by (simp_all add: crossbar_obj_def Let_def)

lemma pallet_type [simp]: "ud_type (userData (pallet_obj st now r bay level)) = Some ''pallet''"
  and pallet_key [simp]: "mapKey (pallet_obj st now r bay level)
         = Some (componentId_of (rack_id r) (PalletKey bay level))"
  by (simp_all add: pallet_obj_def Let_def)

lemma load_box_key [simp]: "mapKey (load_box_obj hue) = None"
  by (simp add: load_box_obj_def)

lemma long_wire_type [simp]:
    "ud_type (userData (long_wire_obj st now r bay level w)) = Some ''deck''"
  and long_wire_key: "mapKey (long_wire_obj st now r bay level w)
         = (if w = 0 then Some (componentId_of (rack_id r) (DeckKey bay level)) else None)"
  by (simp_all add: long_wire_obj_def Let_def)

lemma deck_part_key [simp]: "mapKey (deck_part_obj st now r bay level) = None"
  by (simp add: deck_part_obj_def Let_def)

lemma upright_objs_ids:
  "ids_where P (upright_objs st now r bay s) =
     (if P (userData (upright_obj st now r bay s))
      then [componentId_of (rack_id r) (UprightKey bay s)] else [])"
  by (simp add: upright_objs_def ids_where_Cons)

lemma brace_objs_ids:
  "ids_where P (brace_objs st now r bay level) =
     (if P (userData (brace_obj st now r bay level))
      then [componentId_of (rack_id r) (BraceKey bay level)] else [])"
  by (simp add: brace_objs_def ids_where_Cons)

lemma connector_objs_ids:
  "ids_where P (connector_objs st now r bay level) =
     (if P (userData (connector_obj st now r bay level))
      then [componentId_of (rack_id r) (ConnectorKey bay level)] else [])"
  by (simp add: connector_objs_def ids_where_Cons)

lemma beam_objs_ids:
  "ids_where P (beam_objs st now r bay level s) =
     (if P (userData (beam_obj st now r bay level s))
      then [componentId_of (rack_id r) (BeamKey bay level s)] else [])"
  by (simp add: beam_objs_def ids_where_Cons)

lemma crossbar_objs_ids:
  "ids_where P (crossbar_objs st now r bay level i) =
     (if P (userData (crossbar_obj st now r bay level i))
      then [componentId_of (rack_id r) (CrossbarKey bay level i)] else [])"
  by (simp add: crossbar_objs_def ids_where_Cons)

lemma deck_objs_ids:
  "ids_where P (deck_objs st now r bay level) =
     (if P (userData (long_wire_obj st now r bay level 0))
      then [componentId_of (rack_id r) (DeckKey bay level)] else [])"
proof -
  have split: "[0..<numLongWires] = 0 # [Suc 0..<numLongWires]"
    by (simp add: numLongWires_def upt_conv_Cons)
  have rest: "ids_where P (map (long_wire_obj st now r bay level) [Suc 0..<numLongWires]) = []"
    by (rule ids_where_unregistered) (auto simp: long_wire_key)
  have parts: "ids_where P (map (\<lambda>c. deck_part_obj st now r bay level) [0..<numCrossWires]) = []"
    "ids_where P (replicate 4 (deck_part_obj st now r bay level)) = []"
    by (rule ids_where_unregistered, simp)+
  show ?thesis
    unfolding deck_objs_def split
    by (simp add: ids_where_Cons long_wire_key rest parts)
qed

lemma pallet_objs_ids:
  "ids_where P (fst (pallet_objs st now r bay level draws i)) =
     (if showPallets (rack_config r) \<and> draws i * 100 < palletFill (rack_config r)
         \<and> P (userData (pallet_obj st now r bay level))
      then [componentId_of (rack_id r) (PalletKey bay level)] else [])"
  by (simp add: pallet_objs_def ids_where_Cons)

lemma concat_map_empty [simp]: "concat (map (\<lambda>x. []) xs) = []"
  by (induction xs) simp_all

lemma frame_ids:
  "ids_where P (frame_objs st now r bay) =
     concat (map (\<lambda>s. ids_where P (upright_objs st now r bay s)) [Front, Back])
     @ concat (map (\<lambda>l. ids_where P (brace_objs st now r bay l))
                [0..<nat (levels (rack_config r))])
     @ concat (map (\<lambda>l. ids_where P (connector_objs st now r bay l))
                [0..<nat (levels (rack_config r) + 1)])"
  by (simp add: frame_objs_def ids_where_concat comp_def)

lemma fixed_cell_ids:
  "ids_where P (fixed_cell_objs st now r bay level) =
     concat (map (\<lambda>s. ids_where P (beam_objs st now r bay level s)) [Front, Back])
     @ concat (map (\<lambda>i. ids_where P (crossbar_objs st now r bay level i)) [0..<numCrossbars])
     @ (if showWireDecks (rack_config r) then ids_where P (deck_objs st now r bay level) else [])"
  by (simp add: fixed_cell_objs_def ids_where_concat comp_def)

lemma cell_ids:
  "ids_where P (fst (cell_objs st now r draws bay level i)) =
     ids_where P (fixed_cell_objs st now r bay level)
     @ ids_where P (fst (pallet_objs st now r bay level draws i))"
  by (simp add: cell_objs_def split: prod.splits)

lemma rack_ids:
  "ids_where P (fst (rack_objs st now draws r i)) =
     concat (map (\<lambda>bay. ids_where P (frame_objs st now r bay))
               [0..<nat (bays (rack_config r) + 1)])
     @ ids_where P (fst (thread (bay_objs st now r draws) [0..<nat (bays (rack_config r))] i))"
  by (simp add: rack_objs_def ids_where_concat comp_def split: prod.splits)

text \<open>Identifiers other than the pallets' do not depend on the random draws.\<close>

lemma cells_ids_fixed:
  assumes "\<not> P (userData (pallet_obj st now r bay level))"
  shows "ids_where P (fst (cell_objs st now r draws bay level i))
         = ids_where P (fixed_cell_objs st now r bay level)"
  using assms by (simp add: cell_ids pallet_objs_ids)

lemma rack_ids_fixed:
  assumes "\<And>bay level. \<not> P (userData (pallet_obj st now r bay level))"
  shows "ids_where P (fst (rack_objs st now draws r i)) =
     concat (map (\<lambda>bay. ids_where P (frame_objs st now r bay))
               [0..<nat (bays (rack_config r) + 1)])
     @ concat (map (\<lambda>bay. concat (map (\<lambda>level. ids_where P (fixed_cell_objs st now r bay level))
                                     [1..<nat (levels (rack_config r)) + 1]))
               [0..<nat (bays (rack_config r))])"
proof -
  have bay: "\<And>bay j. ids_where P (fst (bay_objs st now r draws bay j))
      = concat (map (\<lambda>level. ids_where P (fixed_cell_objs st now r bay level))
                  [1..<nat (levels (rack_config r)) + 1])"
    unfolding bay_objs_def
    by (rule thread_ids_indep) (simp add: cells_ids_fixed assms)
  have "ids_where P (fst (thread (bay_objs st now r draws) [0..<nat (bays (rack_config r))] i))
      = concat (map (\<lambda>bay. concat (map (\<lambda>level. ids_where P (fixed_cell_objs st now r bay level))
                                     [1..<nat (levels (rack_config r)) + 1]))
               [0..<nat (bays (rack_config r))])"
    by (rule thread_ids_indep) (simp add: bay)
  then show ?thesis by (simp add: rack_ids)
qed

lemma frame_ids_type:
  "ids_where (\<lambda>ud. ud_type ud = Some t) (frame_objs st now r bay) =
     (if t = ''upright''
      then [componentId_of (rack_id r) (UprightKey bay Front),
            componentId_of (rack_id r) (UprightKey bay Back)] else [])
     @ (if t = ''brace''
        then map (\<lambda>l. componentId_of (rack_id r) (BraceKey bay l))
               [0..<nat (levels (rack_config r))] else [])
     @ (if t = ''connector''
        then map (\<lambda>l. componentId_of (rack_id r) (ConnectorKey bay l))
               [0..<nat (levels (rack_config r) + 1)] else [])"
  by (simp add: frame_ids upright_objs_ids brace_objs_ids connector_objs_ids eq_commute [of _ t]
      del: upt_Suc componentId_of.simps)

lemma fixed_cell_ids_type:
  "ids_where (\<lambda>ud. ud_type ud = Some t) (fixed_cell_objs st now r bay level) =
     (if t = ''beam''
      then [componentId_of (rack_id r) (BeamKey bay level Front),
            componentId_of (rack_id r) (BeamKey bay level Back)] else [])
     @ (if t = ''crossbar''
        then map (\<lambda>i. componentId_of (rack_id r) (CrossbarKey bay level i)) [0..<numCrossbars]
        else [])
     @ (if t = ''deck'' \<and> showWireDecks (rack_config r)
        then [componentId_of (rack_id r) (DeckKey bay level)] else [])"
  by (simp add: fixed_cell_ids beam_objs_ids crossbar_objs_ids deck_objs_ids eq_commute [of _ t]
      del: upt_Suc componentId_of.simps)

lemma rack_ids_type:
  assumes "t \<noteq> ''pallet''"
  shows "ids_of_type t (fst (rack_objs st now draws r i)) =
     concat (map (\<lambda>bay. ids_where (\<lambda>ud. ud_type ud = Some t) (frame_objs st now r bay))
               [0..<nat (bays (rack_config r) + 1)])
     @ concat (map (\<lambda>bay. concat (map (\<lambda>level.
                   ids_where (\<lambda>ud. ud_type ud = Some t) (fixed_cell_objs st now r bay level))
                                     [1..<nat (levels (rack_config r)) + 1]))
               [0..<nat (bays (rack_config r))])"
  unfolding ids_of_type_where
  by (rule rack_ids_fixed) (simp add: assms eq_commute [of _ t])

lemma upright_ids:
  "ids_of_type ''upright'' (fst (rack_objs st now draws r i))
     = map (componentId_of (rack_id r)) (upright_keys (nat (bays (rack_config r) + 1)))"
  by (simp add: rack_ids_type frame_ids_type fixed_cell_ids_type upright_keys_def map_concat
      comp_def del: upt_Suc componentId_of.simps)

lemma brace_ids:
  "ids_of_type ''brace'' (fst (rack_objs st now draws r i))
     = map (componentId_of (rack_id r))
         (brace_keys (nat (bays (rack_config r) + 1)) (nat (levels (rack_config r))))"
  by (simp add: rack_ids_type frame_ids_type fixed_cell_ids_type brace_keys_def map_concat
      comp_def del: upt_Suc componentId_of.simps)

lemma connector_ids:
  "ids_of_type ''connector'' (fst (rack_objs st now draws r i))
     = map (componentId_of (rack_id r))
         (connector_keys (nat (bays (rack_config r) + 1)) (nat (levels (rack_config r) + 1)))"
  by (simp add: rack_ids_type frame_ids_type fixed_cell_ids_type connector_keys_def map_concat
      comp_def del: upt_Suc componentId_of.simps)

lemma beam_ids:
  "ids_of_type ''beam'' (fst (rack_objs st now draws r i))
     = map (componentId_of (rack_id r))
         (beam_keys (nat (bays (rack_config r))) (nat (levels (rack_config r))))"
  by (simp add: rack_ids_type frame_ids_type fixed_cell_ids_type beam_keys_def map_concat
      comp_def del: upt_Suc componentId_of.simps)

lemma crossbar_ids:
  "ids_of_type ''crossbar'' (fst (rack_objs st now draws r i))
     = map (componentId_of (rack_id r))
         (crossbar_keys (nat (bays (rack_config r))) (nat (levels (rack_config r))))"
  by (simp add: rack_ids_type frame_ids_type fixed_cell_ids_type crossbar_keys_def map_concat
      comp_def del: upt_Suc componentId_of.simps)

lemma length_concat_const:
  "(\<And>x. x \<in> set xs \<Longrightarrow> length (f x) = c) \<Longrightarrow> length (concat (map f xs)) = length xs * c"
  by (induction xs) simp_all

lemma distinct_concat_map:
  assumes "distinct xs" and "\<And>x. x \<in> set xs \<Longrightarrow> distinct (f x)"
    and "\<And>x y. x \<in> set xs \<Longrightarrow> y \<in> set xs \<Longrightarrow> x \<noteq> y \<Longrightarrow> set (f x) \<inter> set (f y) = {}"
  shows "distinct (concat (map f xs))"
  using assms
proof (induction xs)
  case Nil
  then show ?case by simp
next
  case (Cons a xs)
  have "distinct (concat (map f xs))"
    using Cons by simp
  moreover have "distinct (f a)" using Cons.prems(2) by simp
  moreover have "set (f a) \<inter> set (concat (map f xs)) = {}"
  proof -
    have "\<And>y. y \<in> set xs \<Longrightarrow> set (f a) \<inter> set (f y) = {}"
      using Cons.prems(1,3) by auto
    then show ?thesis by auto
  qed
  ultimately show ?case by simp
qed

lemma length_upright_keys: "length (upright_keys b) = 2 * b"
  unfolding upright_keys_def by (subst length_concat_const [where c = 2]) simp_all

lemma length_brace_keys: "length (brace_keys b l) = b * l"
  unfolding brace_keys_def by (subst length_concat_const [where c = l]) simp_all

lemma length_connector_keys: "length (connector_keys b l) = b * l"
  unfolding connector_keys_def by (subst length_concat_const [where c = l]) simp_all

lemma length_beam_keys: "length (beam_keys b l) = 2 * b * l"
proof -
  have "\<And>bay. length (concat (map (\<lambda>level. [BeamKey bay level Front, BeamKey bay level Back])
      [1..<l + 1])) = l * 2"
    by (subst length_concat_const [where c = 2]) simp_all
  then show ?thesis
    unfolding beam_keys_def by (subst length_concat_const [where c = "l * 2"]) simp_all
qed

lemma length_crossbar_keys: "length (crossbar_keys b l) = 3 * b * l"
proof -
  have "\<And>bay. length (concat (map (\<lambda>level. map (CrossbarKey bay level) [0..<numCrossbars])
      [1..<l + 1])) = l * 3"
    by (subst length_concat_const [where c = 3]) (simp_all add: numCrossbars_def)
  then show ?thesis
    unfolding crossbar_keys_def by (subst length_concat_const [where c = "l * 3"]) simp_all
qed

lemma distinct_upright_keys: "distinct (upright_keys b)"
  unfolding upright_keys_def by (rule distinct_concat_map) auto

lemma distinct_brace_keys: "distinct (brace_keys b l)"
  unfolding brace_keys_def by (rule distinct_concat_map) (auto simp: distinct_map inj_on_def)

lemma distinct_connector_keys: "distinct (connector_keys b l)"
  unfolding connector_keys_def by (rule distinct_concat_map) (auto simp: distinct_map inj_on_def)

lemma distinct_beam_keys: "distinct (beam_keys b l)"
  unfolding beam_keys_def
proof (rule distinct_concat_map)
  show "distinct [0..<b]" by simp
next
  fix bay
  show "distinct (concat (map (\<lambda>level. [BeamKey bay level Front, BeamKey bay level Back])
      [1..<l + 1]))"
    by (rule distinct_concat_map) auto
next
  fix x y :: nat
  assume "x \<noteq> y"
  then show "set (concat (map (\<lambda>level. [BeamKey x level Front, BeamKey x level Back]) [1..<l + 1]))
      \<inter> set (concat (map (\<lambda>level. [BeamKey y level Front, BeamKey y level Back]) [1..<l + 1])) = {}"
    by auto
qed

lemma distinct_crossbar_keys: "distinct (crossbar_keys b l)"
  unfolding crossbar_keys_def
proof (rule distinct_concat_map)
  show "distinct [0..<b]" by simp
next
  fix bay
  show "distinct (concat (map (\<lambda>level. map (CrossbarKey bay level) [0..<numCrossbars])
      [1..<l + 1]))"
    by (rule distinct_concat_map) (auto simp: distinct_map inj_on_def)
next
  fix x y :: nat
  assume "x \<noteq> y"
  then show "set (concat (map (\<lambda>level. map (CrossbarKey x level) [0..<numCrossbars]) [1..<l + 1]))
      \<inter> set (concat (map (\<lambda>level. map (CrossbarKey y level) [0..<numCrossbars]) [1..<l + 1])) = {}"
    by auto
qed

lemma card_ids_of_keys:
  "distinct ks \<Longrightarrow> card (set (map (componentId_of rid) ks)) = length ks"
proof -
  assume d: "distinct ks"
  have "inj_on (componentId_of rid) (set ks)"
    using componentId_of_inj by (auto simp: inj_on_def)
  with d have "distinct (map (componentId_of rid) ks)" by (simp add: distinct_map)
  then show ?thesis using distinct_card by fastforce
qed

lemma kind_cards:
  assumes "bays (rack_config r) = int b" and "levels (rack_config r) = int l"
  shows "card (set (ids_of_type ''upright'' (fst (rack_objs st now draws r i)))) = 2 * (b + 1)"
    and "card (set (ids_of_type ''connector'' (fst (rack_objs st now draws r i)))) = (b + 1) * (l + 1)"
    and "card (set (ids_of_type ''beam'' (fst (rack_objs st now draws r i)))) = 2 * b * l"
    and "card (set (ids_of_type ''brace'' (fst (rack_objs st now draws r i)))) = (b + 1) * l"
    and "card (set (ids_of_type ''crossbar'' (fst (rack_objs st now draws r i)))) = 3 * b * l"
proof -
  have n: "nat (int b + 1) = b + 1" "nat (int l + 1) = l + 1" "nat (int b) = b" "nat (int l) = l"
    by simp_all
  show "card (set (ids_of_type ''upright'' (fst (rack_objs st now draws r i)))) = 2 * (b + 1)"
    unfolding upright_ids assms n
    by (simp only: card_ids_of_keys [OF distinct_upright_keys] length_upright_keys)
  show "card (set (ids_of_type ''connector'' (fst (rack_objs st now draws r i)))) = (b + 1) * (l + 1)"
    unfolding connector_ids assms n
    by (simp only: card_ids_of_keys [OF distinct_connector_keys] length_connector_keys)
  show "card (set (ids_of_type ''beam'' (fst (rack_objs st now draws r i)))) = 2 * b * l"
    unfolding beam_ids assms n
    by (simp only: card_ids_of_keys [OF distinct_beam_keys] length_beam_keys)
  show "card (set (ids_of_type ''brace'' (fst (rack_objs st now draws r i)))) = (b + 1) * l"
    unfolding brace_ids assms n
    by (simp only: card_ids_of_keys [OF distinct_brace_keys] length_brace_keys)
  show "card (set (ids_of_type ''crossbar'' (fst (rack_objs st now draws r i)))) = 3 * b * l"
    unfolding crossbar_ids assms n
    by (simp only: card_ids_of_keys [OF distinct_crossbar_keys] length_crossbar_keys)
qed

text \<open>
  Claim C1, as amended. For a rack with \<open>b\<close> bays and \<open>l\<close> levels, the meshes that one
  build puts into the rack's group register \<open>2(b+1)\<close> upright ids, \<open>(b+1)(l+1)\<close>
  connector ids, \<open>2bl\<close> beam ids, \<open>(b+1)l\<close> brace ids and \<open>3bl\<close> crossbar ids, all
  different: braces and connectors belong to the \<open>b+1\<close> upright frames, not to the \<open>b\<close>
  bays.
\<close>

theorem component_counts:
  assumes "bays (rack_config r) = int b" and "levels (rack_config r) = int l"
  shows "card (set (ids_of_type ''upright'' (fst (rack_objs st now draws r i)))) = 2 * (b + 1)
       \<and> card (set (ids_of_type ''connector'' (fst (rack_objs st now draws r i))))
           = (b + 1) * (l + 1)
       \<and> card (set (ids_of_type ''beam'' (fst (rack_objs st now draws r i)))) = 2 * b * l
       \<and> card (set (ids_of_type ''brace'' (fst (rack_objs st now draws r i)))) = (b + 1) * l
       \<and> card (set (ids_of_type ''crossbar'' (fst (rack_objs st now draws r i)))) = 3 * b * l"
  using kind_cards [OF assms] by simp

lemma rack1_config: "bays (rack_config rack1) = int 3" "levels (rack_config rack1) = int 4"
  by (simp_all add: rack1_def createNewRack_def defaultConfig_def)

theorem component_counts_witness:
  "bays (rack_config rack1) = int 3 \<and> levels (rack_config rack1) = int 4
   \<and> card (set (ids_of_type ''upright'' (fst (rack_objs initial_state 0 (\<lambda>n. 0) rack1 0)))) = 8
   \<and> card (set (ids_of_type ''connector'' (fst (rack_objs initial_state 0 (\<lambda>n. 0) rack1 0)))) = 20
   \<and> card (set (ids_of_type ''beam'' (fst (rack_objs initial_state 0 (\<lambda>n. 0) rack1 0)))) = 24
   \<and> card (set (ids_of_type ''brace'' (fst (rack_objs initial_state 0 (\<lambda>n. 0) rack1 0)))) = 16
   \<and> card (set (ids_of_type ''crossbar'' (fst (rack_objs initial_state 0 (\<lambda>n. 0) rack1 0)))) = 36"
  using component_counts [OF rack1_config, of initial_state 0 "\<lambda>n. 0" 0] rack1_config
  by simp

text \<open>
  The claim C1 as stated fails: the default rack of three bays and four levels gets 16
  braces, not 12, and 20 connectors, not 30.
\<close>

theorem default_rack_braces_counterexample:
  "rack_config rack1 = defaultConfig
   \<and> card (set (ids_of_type ''brace'' (fst (rack_objs initial_state 0 (\<lambda>n. 0) rack1 0)))) = 16
   \<and> card (set (ids_of_type ''connector'' (fst (rack_objs initial_state 0 (\<lambda>n. 0) rack1 0)))) = 20"
  using kind_cards(2,4) [OF rack1_config, of initial_state 0 "\<lambda>n. 0" 0]
  by (simp add: rack1_def createNewRack_def)

section \<open>Rebuilding the scene\<close>

lemma thread_hom_cong:
  assumes "G [] = []" and "\<And>a b. G (a @ b) = G a @ G b"
    and "\<And>x i j. x \<in> set xs \<Longrightarrow> G (fst (f x i)) = G (fst (g x j))"
  shows "G (fst (thread f xs i)) = G (fst (thread g xs j))"
  using assms(3)
proof (induction xs arbitrary: i j)
  case Nil
  then show ?case by simp
next
  case (Cons y ys)
  obtain os i' where fy: "f y i = (os, i')" by (cases "f y i")
  obtain zs i'' where tf: "thread f ys i' = (zs, i'')" by (cases "thread f ys i'")
  obtain os2 j' where gy: "g y j = (os2, j')" by (cases "g y j")
  obtain zs2 j'' where tg: "thread g ys j' = (zs2, j'')" by (cases "thread g ys j'")
  have a: "G os = G os2" using Cons.prems [of y i j] fy gy by simp
  have b: "G zs = G zs2"
    using Cons.IH [of i' j'] Cons.prems tf tg by simp
  show ?case using fy tf gy tg a b by (simp add: assms(2))
qed

lemma thread_hom_elem:
  assumes "G [] = []" and "\<And>a b. G (a @ b) = G a @ G b"
    and "c \<in> set (G (fst (thread f xs i)))"
  shows "\<exists>x \<in> set xs. \<exists>j. c \<in> set (G (fst (f x j)))"
  using assms(3)
proof (induction xs arbitrary: i)
  case Nil
  then show ?case by (simp add: assms(1))
next
  case (Cons y ys)
  obtain os i' where fy: "f y i = (os, i')" by (cases "f y i")
  obtain zs i'' where tf: "thread f ys i' = (zs, i'')" by (cases "thread f ys i'")
  from Cons.prems have "c \<in> set (G os) \<or> c \<in> set (G zs)"
    using fy tf by (simp add: assms(2))
  then show ?case
  proof
    assume "c \<in> set (G os)"
    then have "c \<in> set (G (fst (f y i)))" using fy by simp
    then show ?thesis by auto
  next
    assume "c \<in> set (G zs)"
    then have "c \<in> set (G (fst (thread f ys i')))" using tf by simp
    from Cons.IH [OF this] show ?thesis by auto
  qed
qed

lemma scene_ids_hom:
  "ids_where P (scene_objects []) = []"
  "ids_where P (scene_objects (a @ b)) = ids_where P (scene_objects a) @ ids_where P (scene_objects b)"
  by (simp_all add: scene_objects_def)

lemma build_rack_ids:
  "ids_where P (scene_objects (fst (build_rack st now draws r i)))
     = ids_where P (fst (rack_objs st now draws r i))"
  by (simp add: build_rack_def scene_objects_def split: prod.splits)

lemma structural_ids_rebuild:
  "structural_ids (scene_objects (build_scene st now d1))
     = structural_ids (scene_objects (build_scene st now d2))"
  unfolding structural_ids_def build_scene_def
proof (rule thread_hom_cong [where G = "\<lambda>gs. ids_where (\<lambda>ud. ud_type ud \<noteq> Some ''pallet'') (scene_objects gs)"])
  fix r i j
  show "ids_where (\<lambda>ud. ud_type ud \<noteq> Some ''pallet'') (scene_objects (fst (build_rack st now d1 r i)))
      = ids_where (\<lambda>ud. ud_type ud \<noteq> Some ''pallet'') (scene_objects (fst (build_rack st now d2 r j)))"
    unfolding build_rack_ids
    by (simp add: rack_ids_fixed)
qed (simp_all add: scene_ids_hom)

lemma pallet_draw_fixed:
  assumes "deterministic_pallets (rack_config r)"
    and "\<forall>n. 0 \<le> d1 n \<and> d1 n < 1" and "\<forall>n. 0 \<le> d2 n \<and> d2 n < 1"
  shows "(showPallets (rack_config r) \<and> d1 i * 100 < palletFill (rack_config r))
       = (showPallets (rack_config r) \<and> d2 j * 100 < palletFill (rack_config r))"
proof -
  have a: "0 \<le> d1 i * 100" "d1 i * 100 < 100" "0 \<le> d2 j * 100" "d2 j * 100 < 100"
    using assms(2,3) by simp_all
  from assms(1) consider "\<not> showPallets (rack_config r)" | "palletFill (rack_config r) \<le> 0"
    | "100 \<le> palletFill (rack_config r)"
    unfolding deterministic_pallets_def by blast
  then show ?thesis
  proof cases
    case 1
    then show ?thesis by simp
  next
    case 2
    with a show ?thesis by auto
  next
    case 3
    with a show ?thesis by auto
  qed
qed

lemma registered_ids_rebuild:
  assumes "\<forall>r \<in> set (racks st). deterministic_pallets (rack_config r)"
    and "\<forall>n. 0 \<le> d1 n \<and> d1 n < 1" and "\<forall>n. 0 \<le> d2 n \<and> d2 n < 1"
  shows "registered_ids (scene_objects (build_scene st now d1))
       = registered_ids (scene_objects (build_scene st now d2))"
  unfolding registered_ids_where build_scene_def
proof (rule thread_hom_cong [where G = "\<lambda>gs. ids_where (\<lambda>_. True) (scene_objects gs)"])
  fix r i j
  assume r: "r \<in> set (racks st)"
  then have det: "deterministic_pallets (rack_config r)" using assms(1) by blast
  have cell: "\<And>bay level i j. ids_where (\<lambda>_. True) (fst (cell_objs st now r d1 bay level i))
      = ids_where (\<lambda>_. True) (fst (cell_objs st now r d2 bay level j))"
  proof -
    fix bay level i j
    show "ids_where (\<lambda>_. True) (fst (cell_objs st now r d1 bay level i))
      = ids_where (\<lambda>_. True) (fst (cell_objs st now r d2 bay level j))"
      using pallet_draw_fixed [OF det assms(2,3), of i j]
      by (auto simp add: cell_ids pallet_objs_ids)
  qed
  have bay: "\<And>bay i j. ids_where (\<lambda>_. True) (fst (bay_objs st now r d1 bay i))
      = ids_where (\<lambda>_. True) (fst (bay_objs st now r d2 bay j))"
    unfolding bay_objs_def by (rule thread_ids_cong) (rule cell)
  have "ids_where (\<lambda>_. True) (fst (thread (bay_objs st now r d1) [0..<nat (bays (rack_config r))] i))
      = ids_where (\<lambda>_. True) (fst (thread (bay_objs st now r d2) [0..<nat (bays (rack_config r))] j))"
    by (rule thread_ids_cong) (rule bay)
  then show "ids_where (\<lambda>_. True) (scene_objects (fst (build_rack st now d1 r i)))
      = ids_where (\<lambda>_. True) (scene_objects (fst (build_rack st now d2 r j)))"
    unfolding build_rack_ids by (simp add: rack_ids)
qed (simp_all add: scene_ids_hom)

text \<open>
  Claim C2, as amended. Two builds from the same state register the same ids for every
  component other than the pallets, whatever the random draws of either build are; they
  register the same ids altogether when, for every rack, pallets are off or the fill rate
  is at most 0 or at least 100, so that no draw decides anything.
\<close>

theorem rebuild_ids:
  "structural_ids (scene_objects (build_scene st now d1))
     = structural_ids (scene_objects (build_scene st now d2))
   \<and> ((\<forall>r \<in> set (racks st). deterministic_pallets (rack_config r))
        \<and> (\<forall>n. 0 \<le> d1 n \<and> d1 n < 1) \<and> (\<forall>n. 0 \<le> d2 n \<and> d2 n < 1)
      \<longrightarrow> registered_ids (scene_objects (build_scene st now d1))
          = registered_ids (scene_objects (build_scene st now d2)))"
  using structural_ids_rebuild registered_ids_rebuild by blast

theorem rebuild_ids_witness:
  "deterministic_pallets (rack_config rack1)
   \<and> (\<forall>n. (0::real) \<le> 0 \<and> (0::real) < 1) \<and> (\<forall>n. (0::real) \<le> 99 / 100 \<and> (99 / 100 :: real) < 1)
   \<and> registered_ids (scene_objects (build_scene initial_state 0 (\<lambda>n. 0)))
       = registered_ids (scene_objects (build_scene initial_state 0 (\<lambda>n. 99 / 100)))
   \<and> structural_ids (scene_objects (build_scene pallet_state 0 (\<lambda>n. 0)))
       = structural_ids (scene_objects (build_scene pallet_state 0 (\<lambda>n. 99 / 100)))"
proof -
  have d: "deterministic_pallets (rack_config rack1)"
    by (simp add: deterministic_pallets_def rack1_def createNewRack_def defaultConfig_def)
  then have a: "\<forall>r \<in> set (racks initial_state). deterministic_pallets (rack_config r)"
    by (simp add: initial_state_def rack1_def)
  show ?thesis
    using rebuild_ids [of initial_state 0 "\<lambda>n. 0" "\<lambda>n. 99 / 100"]
      rebuild_ids [of pallet_state 0 "\<lambda>n. 0" "\<lambda>n. 99 / 100"] d a
    by simp
qed

lemma frame_id_key:
  assumes "c \<in> set (ids_where P (frame_objs st now r bay))"
  shows "\<exists>k. c = componentId_of (rack_id r) k \<and> is_frame_key k \<and> key_bay k = bay"
proof -
  from assms consider s where "c = componentId_of (rack_id r) (UprightKey bay s)"
    | l where "c = componentId_of (rack_id r) (BraceKey bay l)"
    | l where "c = componentId_of (rack_id r) (ConnectorKey bay l)"
    unfolding frame_ids
    by (auto simp: upright_objs_ids brace_objs_ids connector_objs_ids
        simp del: componentId_of.simps upt_Suc split: if_splits)
  then show ?thesis
  proof cases
    case 1
    then have "c = componentId_of (rack_id r) (UprightKey bay s)
        \<and> is_frame_key (UprightKey bay s) \<and> key_bay (UprightKey bay s) = bay" by simp
    then show ?thesis by blast
  next
    case 2
    then have "c = componentId_of (rack_id r) (BraceKey bay l)
        \<and> is_frame_key (BraceKey bay l) \<and> key_bay (BraceKey bay l) = bay" by simp
    then show ?thesis by blast
  next
    case 3
    then have "c = componentId_of (rack_id r) (ConnectorKey bay l)
        \<and> is_frame_key (ConnectorKey bay l) \<and> key_bay (ConnectorKey bay l) = bay" by simp
    then show ?thesis by blast
  qed
qed

lemma fixed_cell_id_key:
  assumes "c \<in> set (ids_where P (fixed_cell_objs st now r bay level))"
  shows "\<exists>k. c = componentId_of (rack_id r) k \<and> \<not> is_frame_key k \<and> \<not> is_pallet_key k
           \<and> key_bay k = bay \<and> key_level k = level"
proof -
  from assms consider s where "c = componentId_of (rack_id r) (BeamKey bay level s)"
    | i where "c = componentId_of (rack_id r) (CrossbarKey bay level i)"
    | "c = componentId_of (rack_id r) (DeckKey bay level)"
    unfolding fixed_cell_ids
    by (auto simp: beam_objs_ids crossbar_objs_ids deck_objs_ids
        simp del: componentId_of.simps upt_Suc split: if_splits)
  then show ?thesis
  proof cases
    case 1
    then have "c = componentId_of (rack_id r) (BeamKey bay level s)
        \<and> \<not> is_frame_key (BeamKey bay level s) \<and> \<not> is_pallet_key (BeamKey bay level s)
        \<and> key_bay (BeamKey bay level s) = bay \<and> key_level (BeamKey bay level s) = level"
      by simp
    then show ?thesis by blast
  next
    case 2
    then have "c = componentId_of (rack_id r) (CrossbarKey bay level i)
        \<and> \<not> is_frame_key (CrossbarKey bay level i) \<and> \<not> is_pallet_key (CrossbarKey bay level i)
        \<and> key_bay (CrossbarKey bay level i) = bay \<and> key_level (CrossbarKey bay level i) = level"
      by simp
    then show ?thesis by blast
  next
    case 3
    then have "c = componentId_of (rack_id r) (DeckKey bay level)
        \<and> \<not> is_frame_key (DeckKey bay level) \<and> \<not> is_pallet_key (DeckKey bay level)
        \<and> key_bay (DeckKey bay level) = bay \<and> key_level (DeckKey bay level) = level"
      by simp
    then show ?thesis by blast
  qed
qed

lemma cell_id_key:
  assumes "c \<in> set (ids_where P (fst (cell_objs st now r draws bay level i)))"
  shows "\<exists>k. c = componentId_of (rack_id r) k \<and> \<not> is_frame_key k
           \<and> key_bay k = bay \<and> key_level k = level
           \<and> (is_pallet_key k \<longrightarrow> showPallets (rack_config r)
                 \<and> (\<exists>j. draws j * 100 < palletFill (rack_config r)))"
proof -
  from assms have "c \<in> set (ids_where P (fixed_cell_objs st now r bay level))
      \<or> c \<in> set (ids_where P (fst (pallet_objs st now r bay level draws i)))"
    by (simp add: cell_ids)
  then show ?thesis
  proof
    assume "c \<in> set (ids_where P (fixed_cell_objs st now r bay level))"
    from fixed_cell_id_key [OF this] show ?thesis by blast
  next
    assume "c \<in> set (ids_where P (fst (pallet_objs st now r bay level draws i)))"
    then have "c = componentId_of (rack_id r) (PalletKey bay level)
        \<and> \<not> is_frame_key (PalletKey bay level)
        \<and> key_bay (PalletKey bay level) = bay \<and> key_level (PalletKey bay level) = level
        \<and> (is_pallet_key (PalletKey bay level) \<longrightarrow> showPallets (rack_config r)
                 \<and> (\<exists>j. draws j * 100 < palletFill (rack_config r)))"
      by (auto simp: pallet_objs_ids simp del: componentId_of.simps split: if_splits)
    then show ?thesis by blast
  qed
qed

lemma bay_id_key:
  assumes "c \<in> set (ids_where P (fst (bay_objs st now r draws bay i)))"
  shows "\<exists>k. c = componentId_of (rack_id r) k \<and> \<not> is_frame_key k \<and> key_bay k = bay
           \<and> (is_pallet_key k \<longrightarrow> showPallets (rack_config r)
                 \<and> (\<exists>j. draws j * 100 < palletFill (rack_config r)))"
proof -
  from assms obtain level j where
    "c \<in> set (ids_where P (fst (cell_objs st now r draws bay level j)))"
    unfolding bay_objs_def
    using thread_hom_elem [where G = "ids_where P" and f = "cell_objs st now r draws bay"]
    by (metis ids_where_Nil ids_where_append)
  from cell_id_key [OF this] show ?thesis by blast
qed

lemma rack_id_key:
  assumes "c \<in> set (ids_where P (fst (rack_objs st now draws r i)))"
  shows "\<exists>k. c = componentId_of (rack_id r) k
           \<and> (is_pallet_key k \<longrightarrow> showPallets (rack_config r)
                 \<and> (\<exists>j. draws j * 100 < palletFill (rack_config r)))"
proof -
  from assms have "(\<exists>bay. c \<in> set (ids_where P (frame_objs st now r bay)))
      \<or> c \<in> set (ids_where P (fst (thread (bay_objs st now r draws)
            [0..<nat (bays (rack_config r))] i)))"
    unfolding rack_ids by auto
  then show ?thesis
  proof
    assume "\<exists>bay. c \<in> set (ids_where P (frame_objs st now r bay))"
    then obtain bay where "c \<in> set (ids_where P (frame_objs st now r bay))" by blast
    from frame_id_key [OF this] obtain k where
      k: "c = componentId_of (rack_id r) k" "is_frame_key k" by blast
    then have "\<not> is_pallet_key k" by (cases k) simp_all
    with k show ?thesis by blast
  next
    assume "c \<in> set (ids_where P (fst (thread (bay_objs st now r draws)
            [0..<nat (bays (rack_config r))] i)))"
    then obtain bay j where "c \<in> set (ids_where P (fst (bay_objs st now r draws bay j)))"
      using thread_hom_elem [where G = "ids_where P" and f = "bay_objs st now r draws"]
      by (metis ids_where_Nil ids_where_append)
    from bay_id_key [OF this] show ?thesis by blast
  qed
qed

lemma scene_id_key:
  assumes "c \<in> set (ids_where P (scene_objects (build_scene st now draws)))"
  shows "\<exists>r \<in> set (racks st). \<exists>k. c = componentId_of (rack_id r) k
           \<and> (is_pallet_key k \<longrightarrow> showPallets (rack_config r)
                 \<and> (\<exists>j. draws j * 100 < palletFill (rack_config r)))"
proof -
  from assms obtain r j where r: "r \<in> set (racks st)"
    "c \<in> set (ids_where P (scene_objects (fst (build_rack st now draws r j))))"
    unfolding build_scene_def
    using thread_hom_elem [where G = "\<lambda>gs. ids_where P (scene_objects gs)"
        and f = "build_rack st now draws" and xs = "racks st" and i = 0 and c = c]
    by (auto simp: scene_ids_hom)
  from r(2) have "c \<in> set (ids_where P (fst (rack_objs st now draws r j)))"
    by (simp add: build_rack_ids)
  from rack_id_key [OF this] r(1) show ?thesis by blast
qed

lemma registered_mem:
  "ob \<in> set os \<Longrightarrow> mapKey ob = Some c \<Longrightarrow> c \<in> set (registered_ids os)"
  by (induction os) (auto simp: registered_ids_def map_filter_simps split: option.splits)

lemma pallet_rack_facts:
  "rack_id pallet_rack = ''rack-1''" "showPallets (rack_config pallet_rack)"
  "palletFill (rack_config pallet_rack) = 70" "bays (rack_config pallet_rack) = 3"
  "levels (rack_config pallet_rack) = 4" "racks pallet_state = [pallet_rack]"
  by (simp_all add: pallet_rack_def pallet_state_def rack1_def createNewRack_def defaultConfig_def)

text \<open>
  The claim C2 as stated fails with pallets shown: the same state, built with draws that
  all fall below the fill rate and built with draws that all fall above it, registers the
  pallet of bay 0, level 1 in the first build and not in the second.
\<close>

theorem pallet_ids_differ_counterexample:
  "showPallets (rack_config pallet_rack) \<and> palletFill (rack_config pallet_rack) = 70
   \<and> racks pallet_state = [pallet_rack]
   \<and> ''rack-1-pallet-0-1'' \<in> set (registered_ids (scene_objects (build_scene pallet_state 0 (\<lambda>n. 0))))
   \<and> ''rack-1-pallet-0-1''
       \<notin> set (registered_ids (scene_objects (build_scene pallet_state 0 (\<lambda>n. 99 / 100))))"
proof -
  have id: "componentId_of ''rack-1'' (PalletKey 0 1) = ''rack-1-pallet-0-1''"
    by (simp add: show_nat.simps digit_char_def)
  have r: "pallet_rack \<in> set (racks pallet_state)" by (simp add: pallet_rack_facts)
  have mem: "pallet_obj pallet_state 0 pallet_rack 0 1
      \<in> set (scene_objects (build_scene pallet_state 0 (\<lambda>n. 0)))"
    by (rule cell_in_scene [OF r, where bay = 0 and level = 1])
       (simp_all add: pallet_rack_facts cell_objs_def pallet_objs_def)
  have key: "mapKey (pallet_obj pallet_state 0 pallet_rack 0 1) = Some ''rack-1-pallet-0-1''"
    by (simp only: pallet_key pallet_rack_facts id)
  have yes: "''rack-1-pallet-0-1''
      \<in> set (registered_ids (scene_objects (build_scene pallet_state 0 (\<lambda>n. 0))))"
    by (rule registered_mem [OF mem key])
  have no: "''rack-1-pallet-0-1''
      \<notin> set (registered_ids (scene_objects (build_scene pallet_state 0 (\<lambda>n. 99 / 100))))"
  proof
    assume "''rack-1-pallet-0-1''
      \<in> set (registered_ids (scene_objects (build_scene pallet_state 0 (\<lambda>n. 99 / 100))))"
    then obtain k where k: "''rack-1-pallet-0-1'' = componentId_of ''rack-1'' k"
      "is_pallet_key k \<longrightarrow> (\<exists>j::nat. (99 / 100 :: real) * 100 < 70)"
      unfolding registered_ids_where
      using scene_id_key [of "''rack-1-pallet-0-1''" "\<lambda>_. True" pallet_state 0 "\<lambda>n. 99 / 100"]
      by (auto simp: pallet_rack_facts simp del: componentId_of.simps)
    from k(1) have "k = PalletKey 0 1"
      using componentId_of_inj [of "''rack-1''" k "''rack-1''" "PalletKey 0 1"] id by simp
    with k(2) show False by simp
  qed
  from yes no show ?thesis by (simp add: pallet_rack_facts)
qed

section \<open>No identifier is given twice\<close>

lemma thread_hom_distinct:
  assumes hom: "G [] = []" "\<And>a b. G (a @ b) = G a @ G b"
    and "distinct xs"
    and "\<And>x i. x \<in> set xs \<Longrightarrow> distinct (G (fst (f x i)))"
    and "\<And>x y i j c. x \<in> set xs \<Longrightarrow> y \<in> set xs \<Longrightarrow> c \<in> set (G (fst (f x i)))
            \<Longrightarrow> c \<in> set (G (fst (f y j))) \<Longrightarrow> x = y"
  shows "distinct (G (fst (thread f xs i)))"
  using assms(3-5)
proof (induction xs arbitrary: i)
  case Nil
  then show ?case by (simp add: hom(1))
next
  case (Cons y ys)
  obtain os i' where fy: "f y i = (os, i')" by (cases "f y i")
  obtain zs i'' where tf: "thread f ys i' = (zs, i'')" by (cases "thread f ys i'")
  have d1: "distinct (G os)" using Cons.prems(2) [of y i] fy by simp
  have d2: "distinct (G zs)"
  proof -
    have "distinct (G (fst (thread f ys i')))"
    proof (rule Cons.IH)
      show "distinct ys" using Cons.prems(1) by simp
    next
      fix x i assume "x \<in> set ys"
      then show "distinct (G (fst (f x i)))" using Cons.prems(2) by simp
    next
      fix x z i j c
      assume "x \<in> set ys" "z \<in> set ys" "c \<in> set (G (fst (f x i)))" "c \<in> set (G (fst (f z j)))"
      then show "x = z" using Cons.prems(3) [of x z c i j] by simp
    qed
    then show ?thesis using tf by simp
  qed
  have d3: "set (G os) \<inter> set (G zs) = {}"
  proof (rule ccontr)
    assume "set (G os) \<inter> set (G zs) \<noteq> {}"
    then obtain c where c: "c \<in> set (G os)" "c \<in> set (G zs)" by blast
    from c(2) have "c \<in> set (G (fst (thread f ys i')))" using tf by simp
    from thread_hom_elem [of G, OF hom this] obtain x j where
      x: "x \<in> set ys" "c \<in> set (G (fst (f x j)))" by blast
    have "c \<in> set (G (fst (f y i)))" using c(1) fy by simp
    from Cons.prems(3) [of y x c i j] this x have "y = x" by simp
    with x(1) Cons.prems(1) show False by simp
  qed
  show ?case using fy tf d1 d2 d3 by (simp add: hom(2))
qed

lemma distinct_ids_of_keys:
  "distinct ks \<Longrightarrow> distinct (map (componentId_of rid) ks)"
proof -
  assume d: "distinct ks"
  have "inj_on (componentId_of rid) (set ks)"
    using componentId_of_inj by (auto simp: inj_on_def)
  with d show ?thesis by (simp add: distinct_map)
qed

lemma frame_ids_keys:
  "ids_where (\<lambda>_. True) (frame_objs st now r bay)
     = map (componentId_of (rack_id r)) (frame_keys r bay)"
  by (simp add: frame_ids upright_objs_ids brace_objs_ids connector_objs_ids frame_keys_def
      comp_def del: upt_Suc componentId_of.simps)

lemma cell_ids_keys:
  "ids_where (\<lambda>_. True) (fst (cell_objs st now r draws bay level i))
     = map (componentId_of (rack_id r)) (cell_keys r draws bay level i)"
  by (simp add: cell_ids fixed_cell_ids pallet_objs_ids beam_objs_ids crossbar_objs_ids
      deck_objs_ids cell_keys_def comp_def del: upt_Suc componentId_of.simps)

lemma distinct_frame_keys: "distinct (frame_keys r bay)"
  by (auto simp: frame_keys_def distinct_map inj_on_def)

lemma distinct_cell_keys: "distinct (cell_keys r draws bay level i)"
  by (auto simp: cell_keys_def distinct_map inj_on_def)

lemma same_id_same_key:
  "c = componentId_of rid k \<Longrightarrow> c = componentId_of rid' k' \<Longrightarrow> rid = rid' \<and> k = k'"
  using componentId_of_inj by blast

lemma distinct_bay_ids:
  "distinct (ids_where (\<lambda>_. True) (fst (bay_objs st now r draws bay i)))"
  unfolding bay_objs_def
proof (rule thread_hom_distinct [where G = "ids_where (\<lambda>_. True)"])
  fix level j
  show "distinct (ids_where (\<lambda>_. True) (fst (cell_objs st now r draws bay level j)))"
    unfolding cell_ids_keys by (rule distinct_ids_of_keys [OF distinct_cell_keys])
next
  fix x y i j c
  assume "c \<in> set (ids_where (\<lambda>_. True) (fst (cell_objs st now r draws bay x i)))"
    and "c \<in> set (ids_where (\<lambda>_. True) (fst (cell_objs st now r draws bay y j)))"
  then obtain k k' where "c = componentId_of (rack_id r) k" "key_level k = x"
    "c = componentId_of (rack_id r) k'" "key_level k' = y"
    using cell_id_key by meson
  then show "x = y" using same_id_same_key by blast
qed simp_all

lemma distinct_cells_ids:
  "distinct (ids_where (\<lambda>_. True) (fst (thread (bay_objs st now r draws) [0..<n] i)))"
proof (rule thread_hom_distinct [where G = "ids_where (\<lambda>_. True)"])
  fix bay j
  show "distinct (ids_where (\<lambda>_. True) (fst (bay_objs st now r draws bay j)))"
    by (rule distinct_bay_ids)
next
  fix x y i j c
  assume "c \<in> set (ids_where (\<lambda>_. True) (fst (bay_objs st now r draws x i)))"
    and "c \<in> set (ids_where (\<lambda>_. True) (fst (bay_objs st now r draws y j)))"
  then obtain k k' where "c = componentId_of (rack_id r) k" "key_bay k = x"
    "c = componentId_of (rack_id r) k'" "key_bay k' = y"
    using bay_id_key by meson
  then show "x = y" using same_id_same_key by blast
qed simp_all

lemma distinct_frames_ids:
  "distinct (concat (map (\<lambda>bay. ids_where (\<lambda>_. True) (frame_objs st now r bay)) [0..<n]))"
proof (rule distinct_concat_map)
  show "distinct [0..<n]" by simp
next
  fix bay
  show "distinct (ids_where (\<lambda>_. True) (frame_objs st now r bay))"
    unfolding frame_ids_keys by (rule distinct_ids_of_keys [OF distinct_frame_keys])
next
  fix x y :: nat
  assume ne: "x \<noteq> y"
  show "set (ids_where (\<lambda>_. True) (frame_objs st now r x))
      \<inter> set (ids_where (\<lambda>_. True) (frame_objs st now r y)) = {}"
  proof (rule ccontr)
    assume "set (ids_where (\<lambda>_. True) (frame_objs st now r x))
      \<inter> set (ids_where (\<lambda>_. True) (frame_objs st now r y)) \<noteq> {}"
    then obtain c where "c \<in> set (ids_where (\<lambda>_. True) (frame_objs st now r x))"
      "c \<in> set (ids_where (\<lambda>_. True) (frame_objs st now r y))" by blast
    then obtain k k' where "c = componentId_of (rack_id r) k" "key_bay k = x"
      "c = componentId_of (rack_id r) k'" "key_bay k' = y"
      using frame_id_key by meson
    then have "x = y" using same_id_same_key by blast
    with ne show False by simp
  qed
qed

lemma distinct_rack_ids:
  "distinct (ids_where (\<lambda>_. True) (fst (rack_objs st now draws r i)))"
proof -
  let ?frames = "concat (map (\<lambda>bay. ids_where (\<lambda>_. True) (frame_objs st now r bay))
      [0..<nat (bays (rack_config r) + 1)])"
  let ?cells = "ids_where (\<lambda>_. True)
      (fst (thread (bay_objs st now r draws) [0..<nat (bays (rack_config r))] i))"
  have "set ?frames \<inter> set ?cells = {}"
  proof (rule ccontr)
    assume "set ?frames \<inter> set ?cells \<noteq> {}"
    then obtain c where c: "c \<in> set ?frames" "c \<in> set ?cells" by blast
    from c(1) obtain bay where "c \<in> set (ids_where (\<lambda>_. True) (frame_objs st now r bay))"
      by auto
    from frame_id_key [OF this] obtain k where
      k: "c = componentId_of (rack_id r) k" "is_frame_key k" by blast
    from c(2) obtain bay' j where
      "c \<in> set (ids_where (\<lambda>_. True) (fst (bay_objs st now r draws bay' j)))"
      using thread_hom_elem [where G = "ids_where (\<lambda>_. True)" and f = "bay_objs st now r draws"]
      by (metis ids_where_Nil ids_where_append)
    from bay_id_key [OF this] obtain k' where
      k': "c = componentId_of (rack_id r) k'" "\<not> is_frame_key k'" by blast
    from k k' show False using same_id_same_key by blast
  qed
  then show ?thesis
    unfolding rack_ids using distinct_frames_ids distinct_cells_ids by simp
qed

lemma distinct_scene_ids:
  assumes "distinct (map rack_id (racks st))"
  shows "distinct (registered_ids (scene_objects (build_scene st now draws)))"
  unfolding registered_ids_where build_scene_def
proof (rule thread_hom_distinct [where G = "\<lambda>gs. ids_where (\<lambda>_. True) (scene_objects gs)"])
  show "distinct (racks st)" using assms by (simp add: distinct_map)
next
  fix r i
  show "distinct (ids_where (\<lambda>_. True) (scene_objects (fst (build_rack st now draws r i))))"
    unfolding build_rack_ids by (rule distinct_rack_ids)
next
  fix x y i j c
  assume x: "x \<in> set (racks st)" and y: "y \<in> set (racks st)"
    and "c \<in> set (ids_where (\<lambda>_. True) (scene_objects (fst (build_rack st now draws x i))))"
    and "c \<in> set (ids_where (\<lambda>_. True) (scene_objects (fst (build_rack st now draws y j))))"
  then obtain k k' where "c = componentId_of (rack_id x) k" "c = componentId_of (rack_id y) k'"
    unfolding build_rack_ids using rack_id_key by meson
  then have "rack_id x = rack_id y" using same_id_same_key by blast
  then show "x = y"
    using assms x y by (meson distinct_map inj_on_def)
qed (simp_all add: scene_ids_hom)

text \<open>Two racks with the same id: what a build registers for them.\<close>

lemma twin_racks:
  "racks twin_rack_state
     = [createNewRack ''rack-1'' ''Rack 1'' 0 0,
        createNewRack ''rack-1700000000000'' ''Rack 2'' (111 / 10) 0,
        (createNewRack ''rack-1'' ''Rack 1'' 0 0)
          \<lparr> rack_id := ''rack-1700000000000'', rack_name := ''Rack 1 (Copy)'',
            rack_position := (5, 0) \<rparr>]"
proof -
  have s2: "show_nat (Suc (Suc 0)) = ''2''"
    by (simp add: show_nat.simps digit_char_def)
  show ?thesis
    by (simp add: twin_rack_state_def run_rack_ops_def addNewRack_def duplicateRack_def Let_def
        initial_state_def show_nat_T s2 createNewRack_def defaultConfig_def)
qed

lemma count_list_distinct:
  "distinct xs \<Longrightarrow> x \<in> set xs \<Longrightarrow> count_list xs x = 1"
  by (induction xs) (auto simp: count_list_0_iff)

lemma ids_where_subset: "set (ids_where P os) \<subseteq> set (ids_where (\<lambda>_. True) os)"
  by (induction os) (auto simp: ids_where_Cons split: option.splits)

lemma first_upright_once:
  assumes "0 \<le> bays (rack_config r)"
  shows "count_list (ids_where (\<lambda>_. True) (fst (rack_objs st now draws r i)))
           (componentId_of (rack_id r) (UprightKey 0 Front)) = 1"
proof (rule count_list_distinct [OF distinct_rack_ids])
  from assms obtain n where n: "nat (bays (rack_config r) + 1) = Suc n"
    by (cases "nat (bays (rack_config r) + 1)") auto
  have "UprightKey 0 Front \<in> set (upright_keys (Suc n))"
    unfolding upright_keys_def by (simp add: upt_conv_Cons del: upt_Suc)
  then have "componentId_of (rack_id r) (UprightKey 0 Front)
      \<in> componentId_of (rack_id r) ` set (upright_keys (Suc n))"
    by (rule imageI)
  then have "componentId_of (rack_id r) (UprightKey 0 Front)
      \<in> set (ids_of_type ''upright'' (fst (rack_objs st now draws r i)))"
    unfolding upright_ids n set_map .
  then show "componentId_of (rack_id r) (UprightKey 0 Front)
      \<in> set (ids_where (\<lambda>_. True) (fst (rack_objs st now draws r i)))"
    unfolding ids_of_type_where using ids_where_subset by blast
qed

lemma other_rack_never:
  assumes "rack_id r \<noteq> rid"
  shows "count_list (ids_where P (fst (rack_objs st now draws r i))) (componentId_of rid k) = 0"
proof -
  have "componentId_of rid k \<notin> set (ids_where P (fst (rack_objs st now draws r i)))"
  proof
    assume "componentId_of rid k \<in> set (ids_where P (fst (rack_objs st now draws r i)))"
    from rack_id_key [OF this] obtain k' where
      "componentId_of rid k = componentId_of (rack_id r) k'" by blast
    then have "rid = rack_id r" using componentId_of_inj by blast
    with assms show False by simp
  qed
  then show ?thesis by (simp add: count_list_0_iff)
qed

lemma thread_three:
  assumes "G [] = []" and "\<And>a b. G (a @ b) = G a @ G b"
  shows "\<exists>j k. G (fst (thread f [a, b, c] i))
           = G (fst (f a i)) @ G (fst (f b j)) @ G (fst (f c k))"
proof -
  obtain os j where fa: "f a i = (os, j)" by (cases "f a i")
  obtain ps k where fb: "f b j = (ps, k)" by (cases "f b j")
  obtain qs l where fc: "f c k = (qs, l)" by (cases "f c k")
  have "G (fst (thread f [a, b, c] i)) = G (fst (f a i)) @ G (fst (f b j)) @ G (fst (f c k))"
    using fa fb fc by (simp add: assms)
  then show ?thesis by blast
qed

text \<open>
  Claim C6 fails on the code. The identifier is a function of the rack id, the kind and the
  indices alone, and it is injective in all of them, whatever characters the rack id
  contains; but \<^verbatim>\<open>addNewRack\<close> and \<^verbatim>\<open>duplicateRack\<close> make the rack id from
  \<^verbatim>\<open>Date.now()\<close>, so two racks made in the same millisecond have the same id, and one
  build over the rack list registers every identifier of the one again for the other: here
  the front upright of frame 0 of "Rack 2" and that of "Rack 1 (Copy)".
\<close>

theorem same_ms_ids_collide:
  "map rack_id (racks twin_rack_state)
     = [''rack-1'', ''rack-1700000000000'', ''rack-1700000000000'']
   \<and> map rack_name (racks twin_rack_state) = [''Rack 1'', ''Rack 2'', ''Rack 1 (Copy)'']
   \<and> count_list (registered_ids (scene_objects (build_scene twin_rack_state 0 (\<lambda>n. 0))))
        ''rack-1700000000000-upright-0-front'' = 2
   \<and> \<not> distinct (registered_ids (scene_objects (build_scene twin_rack_state 0 (\<lambda>n. 0))))"
proof -
  let ?a = "createNewRack ''rack-1'' ''Rack 1'' 0 0"
  let ?b = "createNewRack ''rack-1700000000000'' ''Rack 2'' (111 / 10) 0"
  let ?c = "?a \<lparr> rack_id := ''rack-1700000000000'', rack_name := ''Rack 1 (Copy)'',
      rack_position := (5, 0) \<rparr>"
  let ?G = "\<lambda>gs. ids_where (\<lambda>_. True) (scene_objects gs)"
  let ?ids = "registered_ids (scene_objects (build_scene twin_rack_state 0 (\<lambda>n. 0)))"
  let ?u = "componentId_of ''rack-1700000000000'' (UprightKey 0 Front)"
  have c0: "?u = ''rack-1700000000000-upright-0-front''"
    by (simp add: show_nat.simps digit_char_def)
  obtain j k where split: "?ids
      = ids_where (\<lambda>_. True) (fst (rack_objs twin_rack_state 0 (\<lambda>n. 0) ?a 0))
        @ ids_where (\<lambda>_. True) (fst (rack_objs twin_rack_state 0 (\<lambda>n. 0) ?b j))
        @ ids_where (\<lambda>_. True) (fst (rack_objs twin_rack_state 0 (\<lambda>n. 0) ?c k))"
    using thread_three [where G = ?G and f = "build_rack twin_rack_state 0 (\<lambda>n. 0)"
        and a = ?a and b = ?b and c = ?c and i = 0]
    unfolding registered_ids_where build_scene_def twin_racks build_rack_ids
    by (auto simp: scene_ids_hom)
  have a: "count_list (ids_where (\<lambda>_. True) (fst (rack_objs twin_rack_state 0 (\<lambda>n. 0) ?a 0))) ?u = 0"
    by (rule other_rack_never) (simp add: createNewRack_def)
  have b: "count_list (ids_where (\<lambda>_. True) (fst (rack_objs twin_rack_state 0 (\<lambda>n. 0) ?b j))) ?u = 1"
    using first_upright_once [of ?b twin_rack_state 0 "\<lambda>n. 0" j]
    by (simp add: createNewRack_def defaultConfig_def del: componentId_of.simps)
  have c: "count_list (ids_where (\<lambda>_. True) (fst (rack_objs twin_rack_state 0 (\<lambda>n. 0) ?c k))) ?u = 1"
    using first_upright_once [of ?c twin_rack_state 0 "\<lambda>n. 0" k]
    by (simp add: createNewRack_def defaultConfig_def del: componentId_of.simps)
  have two: "count_list ?ids ?u = 2"
    unfolding split using a b c by simp
  have nd: "\<not> distinct ?ids"
  proof
    assume d: "distinct ?ids"
    have "?u \<in> set ?ids" using two by (metis count_list_0_iff zero_neq_numeral)
    from count_list_distinct [OF d this] two show False by simp
  qed
  show ?thesis
    using two nd unfolding c0 by (simp add: twin_racks createNewRack_def)
qed

end
